(* ===== verification/Prelude.thy ===== *)
theory Prelude
  imports Main "HOL-Library.Multiset" "HOL-Library.Char_ord" "HOL-Library.List_Lexorder"
begin

text \<open>
  Shared vocabulary of the development: the JavaScript built-ins that the sources under
  \<open>src/\<close> call (\<open>arr[i]\<close>, \<open>Array.prototype.findIndex\<close>, \<open>String.prototype.split\<close>,
  \<open>Array.prototype.pop\<close>, truthiness of an optional string, number-to-string
  conversion in template literals), the shared lemma collection \<open>js_simps\<close> and the
  generic list lemmas the component theories use.
\<close>

named_theorems js_simps "evaluation rules of the JavaScript built-ins"

section \<open>Array access and search\<close>

text \<open>\<open>xs[i]\<close> in JavaScript: \<open>undefined\<close> (here \<open>None\<close>) out of range.\<close>

definition js_at :: "'a list \<Rightarrow> nat \<Rightarrow> 'a option" where
  "js_at xs i = (if i < length xs then Some (xs ! i) else None)"

text \<open>\<open>Array.prototype.findIndex\<close>: the first index whose element satisfies the
  predicate, or \<open>-1\<close>.\<close>

fun js_find_index_from :: "('a \<Rightarrow> bool) \<Rightarrow> 'a list \<Rightarrow> nat \<Rightarrow> int" where
  "js_find_index_from p [] n = -1"
| "js_find_index_from p (x # xs) n = (if p x then int n else js_find_index_from p xs (Suc n))"

definition js_find_index :: "('a \<Rightarrow> bool) \<Rightarrow> 'a list \<Rightarrow> int" where
  "js_find_index p xs = js_find_index_from p xs 0"

text \<open>Truthiness of a value that is a string or \<open>undefined\<close>: \<open>undefined\<close> and the
  empty string are falsy.\<close>

definition js_truthy :: "string option \<Rightarrow> bool" where
  "js_truthy v = (case v of None \<Rightarrow> False | Some s \<Rightarrow> s \<noteq> [])"

text \<open>\<open>Array.prototype.pop\<close> read for its result: the last element, or \<open>undefined\<close>.\<close>

definition js_pop :: "'a list \<Rightarrow> 'a option" where
  "js_pop xs = (if xs = [] then None else Some (last xs))"

section \<open>Strings\<close>

text \<open>\<open>String.prototype.split\<close> with a string separator. A non-empty separator cuts
  the string at each occurrence, scanning left to right; the chunk being built is kept
  reversed in \<open>cur\<close>. An empty separator splits into single characters.\<close>

definition occurs_at :: "string \<Rightarrow> string \<Rightarrow> nat \<Rightarrow> bool" where
  "occurs_at sep s k \<longleftrightarrow> take (length sep) (drop k s) = sep"

function js_split_from :: "string \<Rightarrow> string \<Rightarrow> string \<Rightarrow> string list" where
  "js_split_from sep [] cur = [rev cur]"
| "js_split_from sep (c # cs) cur =
     (if sep \<noteq> [] \<and> take (length sep) (c # cs) = sep
      then rev cur # js_split_from sep (drop (length sep) (c # cs)) []
      else js_split_from sep cs (c # cur))"
  by pat_completeness auto
termination
  by (relation "measure (\<lambda>(sep, s, cur). length s)") auto

definition js_split :: "string \<Rightarrow> string \<Rightarrow> string list" where
  "js_split sep s = (if sep = [] then map (\<lambda>c. [c]) s else js_split_from sep s [])"

text \<open>Decimal rendering of a non-negative number, as a template literal prints it.\<close>

fun nat_str :: "nat \<Rightarrow> string" where
  "nat_str n =
     (if n < 10 then [char_of (48 + n)] else nat_str (n div 10) @ [char_of (48 + n mod 10)])"

declare nat_str.simps [simp del]

text \<open>A decimal digit, and the value of a string of digits read in base ten (the
  inverse of \<open>nat_str\<close>; \<open>Number(s)\<close> on a string of digits).\<close>

definition is_digit :: "char \<Rightarrow> bool" where
  "is_digit c \<longleftrightarrow> CHR ''0'' \<le> c \<and> c \<le> CHR ''9''"

definition dec_val :: "string \<Rightarrow> nat" where
  "dec_val s = foldl (\<lambda>n c. 10 * n + (of_char c - 48)) 0 s"

text \<open>\<open>${x}\<close> for a value that is a number or \<open>undefined\<close>.\<close>

definition js_num_str :: "nat option \<Rightarrow> string" where
  "js_num_str v = (case v of None \<Rightarrow> ''undefined'' | Some n \<Rightarrow> nat_str n)"

section \<open>Generic list lemmas\<close>

lemma find_append:
  "find p (xs @ ys) = (case find p xs of None \<Rightarrow> find p ys | Some x \<Rightarrow> Some x)"
  by (induction xs) auto

section \<open>Lemmas on the built-ins\<close>

lemma js_at_Some [js_simps]: "i < length xs \<Longrightarrow> js_at xs i = Some (xs ! i)"
  by (simp add: js_at_def)

lemma js_at_None [js_simps]: "length xs \<le> i \<Longrightarrow> js_at xs i = None"
  by (simp add: js_at_def)

lemma js_find_index_from_neg:
  "js_find_index_from p xs n = -1 \<longleftrightarrow> (\<forall>x \<in> set xs. \<not> p x)"
  by (induction xs arbitrary: n) auto

lemma js_find_index_from_found:
  assumes "x \<in> set xs" and "p x"
  shows "\<exists>i < length xs. js_find_index_from p xs n = int (n + i) \<and> p (xs ! i)
           \<and> (\<forall>j < i. \<not> p (xs ! j))"
  using assms
proof (induction xs arbitrary: n)
  case Nil
  then show ?case by simp
next
  case (Cons y ys)
  show ?case
  proof (cases "p y")
    case True
    then show ?thesis by auto
  next
    case False
    with Cons.prems have "x \<in> set ys" by auto
    with Cons.IH [of "Suc n"] Cons.prems obtain i where
      "i < length ys" "js_find_index_from p ys (Suc n) = int (Suc n + i)"
      "p (ys ! i)" "\<forall>j < i. \<not> p (ys ! j)" by blast
    with False show ?thesis
      by (intro exI [of _ "Suc i"]) (auto simp: less_Suc_eq_0_disj)
  qed
qed

lemma js_find_index_neg [js_simps]:
  "js_find_index p xs = -1 \<longleftrightarrow> (\<forall>x \<in> set xs. \<not> p x)"
  by (simp add: js_find_index_def js_find_index_from_neg)

lemma js_find_index_found:
  assumes "\<exists>x \<in> set xs. p x"
  obtains i where "i < length xs" "js_find_index p xs = int i" "p (xs ! i)"
    "\<forall>j < i. \<not> p (xs ! j)"
  using assms js_find_index_from_found [of _ xs p 0] by (auto simp: js_find_index_def)

lemma js_truthy_simps [simp, js_simps]:
  "js_truthy None = False" "js_truthy (Some s) \<longleftrightarrow> s \<noteq> []"
  by (simp_all add: js_truthy_def)

lemma js_split_from_nonempty [simp]: "js_split_from sep s cur \<noteq> []"
  by (induction sep s cur rule: js_split_from.induct) auto

lemma js_split_nonempty [simp]: "sep \<noteq> [] \<Longrightarrow> js_split sep s \<noteq> []"
  by (simp add: js_split_def)

lemma js_pop_js_split [js_simps]:
  "sep \<noteq> [] \<Longrightarrow> js_pop (js_split sep s) = Some (last (js_split sep s))"
  by (simp add: js_pop_def)

text \<open>Scanning a stretch that holds no occurrence of the separator only moves it into the
  current chunk.\<close>

lemma js_split_from_skip:
  assumes "\<forall>k < length u. \<not> occurs_at sep (u @ w) k"
  shows "js_split_from sep (u @ w) cur = js_split_from sep w (rev u @ cur)"
  using assms
proof (induction u arbitrary: cur)
  case Nil
  then show ?case by simp
next
  case (Cons c u)
  from Cons.prems have no0: "\<not> occurs_at sep (c # u @ w) 0" by auto
  from Cons.prems have "\<forall>k < length u. \<not> occurs_at sep (u @ w) k"
    by (auto simp: occurs_at_def dest: spec [of _ "Suc _"])
  with Cons.IH have "js_split_from sep (u @ w) (c # cur) = js_split_from sep w (rev u @ c # cur)" .
  with no0 show ?case by (simp add: occurs_at_def)
qed

lemma js_split_from_none:
  assumes "\<forall>k < length s. \<not> occurs_at sep s k"
  shows "js_split_from sep s cur = [rev cur @ s]"
  using js_split_from_skip [of s sep "[]" cur] assms by simp

lemma js_split_from_match:
  "sep \<noteq> [] \<Longrightarrow> js_split_from sep (sep @ v) cur = rev cur # js_split_from sep v []"
  by (cases sep) simp_all

text \<open>Splitting at the only occurrence of a non-empty separator gives the parts before
  and after it.\<close>

lemma js_split_unique:
  assumes sep: "sep \<noteq> []"
    and only: "\<forall>k < length (u @ sep @ v). occurs_at sep (u @ sep @ v) k \<longleftrightarrow> k = length u"
  shows "js_split sep (u @ sep @ v) = [u, v]"
proof -
  have "\<forall>k < length u. \<not> occurs_at sep (u @ sep @ v) k"
    using only by auto
  then have "js_split_from sep (u @ sep @ v) [] = js_split_from sep (sep @ v) (rev u)"
    using js_split_from_skip [of u sep "sep @ v" "[]"] by simp
  also have "\<dots> = u # js_split_from sep v []"
    using sep by (simp add: js_split_from_match)
  also have "js_split_from sep v [] = [v]"
  proof (rule js_split_from_none [of v sep "[]", simplified], intro allI impI)
    fix k assume "k < length v"
    then have "\<not> occurs_at sep (u @ sep @ v) (length u + length sep + k)"
      using only sep by auto
    then show "\<not> occurs_at sep v k"
      by (simp add: occurs_at_def)
  qed
  finally show ?thesis using sep by (simp add: js_split_def)
qed

text \<open>With a one-character separator, the last part of a split is what follows the last
  occurrence of the character, and a string without it splits into itself.\<close>

lemma js_split_from_single_last:
  "c \<notin> set e \<Longrightarrow> last (js_split_from [c] (n @ c # e) cur) = e"
proof (induction n arbitrary: cur)
  case Nil
  then have "js_split_from [c] e [] = [e]"
    by (intro js_split_from_none [of e "[c]" "[]", simplified]) (auto simp: occurs_at_def take_Suc_conv_app_nth)
  then show ?case by simp
next
  case (Cons x n)
  then show ?case by auto
qed

lemma js_split_single_last:
  "c \<notin> set e \<Longrightarrow> last (js_split [c] (n @ c # e)) = e"
  by (simp add: js_split_def js_split_from_single_last)

lemma js_split_single_none:
  "c \<notin> set s \<Longrightarrow> js_split [c] s = [s]"
  unfolding js_split_def
  by (simp, intro js_split_from_none [of s "[c]" "[]", simplified])
    (auto simp: occurs_at_def take_Suc_conv_app_nth)

text \<open>Printing a number and reading it back gives the number; the printed form is a
  non-empty string of digits.\<close>

lemma dec_val_snoc: "dec_val (xs @ [c]) = 10 * dec_val xs + (of_char c - 48)"
  by (simp add: dec_val_def)

lemma of_char_digit: "d < 10 \<Longrightarrow> of_char (char_of (48 + d)) = (48 + d :: nat)"
  by (simp add: of_char_of)

lemma dec_val_nat_str: "dec_val (nat_str n) = n"
proof (induction n rule: nat_str.induct)
  case (1 n)
  show ?case
  proof (cases "n < 10")
    case True
    then show ?thesis
      using of_char_digit [of n] by (simp add: nat_str.simps [of n] dec_val_def)
  next
    case False
    then have "dec_val (nat_str (n div 10)) = n div 10" using "1.IH" by simp
    then show ?thesis
      using False of_char_digit [of "n mod 10"] by (simp add: nat_str.simps [of n] dec_val_snoc)
  qed
qed

lemma nat_str_inj: "nat_str m = nat_str n \<longleftrightarrow> m = n"
  by (metis dec_val_nat_str)

lemma is_digit_char_of: "d < (10::nat) \<Longrightarrow> is_digit (char_of (48 + d))"
  by (simp add: is_digit_def less_eq_char_def of_char_digit)

lemma nat_str_digits: "nat_str n \<noteq> [] \<and> list_all is_digit (nat_str n)"
proof (induction n rule: nat_str.induct)
  case (1 n)
  then show ?case
    by (cases "n < 10") (simp_all add: nat_str.simps [of n] is_digit_char_of)
qed

text \<open>With a one-character separator, a split at its first occurrence peels off the part
  before it.\<close>

lemma js_split_from_single_cons:
  "c \<notin> set a \<Longrightarrow> js_split_from [c] (a @ c # b) cur = (rev cur @ a) # js_split_from [c] b []"
  by (induction a arbitrary: cur) auto

lemma js_split_single_cons:
  "c \<notin> set a \<Longrightarrow> js_split [c] (a @ c # b) = a # js_split [c] b"
  by (simp add: js_split_def js_split_from_single_cons)

lemma js_split_from_single_none [simp]:
  "c \<notin> set s \<Longrightarrow> js_split_from [c] s cur = [rev cur @ s]"
  by (induction s arbitrary: cur) auto

end
