(* ===== verification/Store.thy ===== *)
theory Store
  imports Prelude
begin

text \<open>
  The Store Accessor: a SQLite table as the sources reach it through better-sqlite3
  (\<open>db.prepare(...).run\<close>, \<open>.all\<close>, \<open>.get\<close>). A table is the list of its rows in
  rowid order, each row with its rowid. An \<open>INTEGER PRIMARY KEY\<close> column is the rowid;
  an insert without one takes one more than the largest rowid in the table (1 in an empty
  table), which is SQLite's documented default. \<open>SELECT\<close> without \<open>ORDER BY\<close>
  scans in rowid order, \<open>.get\<close> returns the first row of the result or \<open>undefined\<close>.
  Store failures are the error \<open>StoreUnavailable\<close> of the operations that can fail.
\<close>

type_synonym 'r table = "(nat \<times> 'r) list"

datatype store_error = StoreUnavailable

definition new_rowid :: "'r table \<Rightarrow> nat" where
  "new_rowid t = Suc (fold max (map fst t) 0)"

text \<open>\<open>INSERT\<close>: the new row goes last; \<open>.run\<close> reports \<open>lastInsertRowid\<close>.\<close>

definition insert_row :: "'r \<Rightarrow> 'r table \<Rightarrow> nat \<times> 'r table" where
  "insert_row r t = (let i = new_rowid t in (i, t @ [(i, r)]))"

definition select_all :: "'r table \<Rightarrow> (nat \<times> 'r) list" where
  "select_all t = t"

definition select_where :: "(nat \<times> 'r \<Rightarrow> bool) \<Rightarrow> 'r table \<Rightarrow> (nat \<times> 'r) list" where
  "select_where p t = filter p t"

definition select_first :: "(nat \<times> 'r \<Rightarrow> bool) \<Rightarrow> 'r table \<Rightarrow> (nat \<times> 'r) option" where
  "select_first p t = find p t"

text \<open>Well-formed tables: rowids are positive and strictly increasing.\<close>

definition wf_table :: "'r table \<Rightarrow> bool" where
  "wf_table t \<longleftrightarrow> sorted_wrt (<) (map fst t) \<and> 0 \<notin> fst ` set t"

section \<open>Lemmas\<close>

lemma fold_max_ge_init: "(m::nat) \<le> fold max xs m"
proof (induction xs arbitrary: m)
  case Nil
  then show ?case by simp
next
  case (Cons a xs)
  have "m \<le> max a m" by simp
  also have "\<dots> \<le> fold max xs (max a m)" by (rule Cons.IH)
  finally show ?case by simp
qed

lemma fold_max_ge: "x \<in> set xs \<Longrightarrow> x \<le> fold max xs (m::nat)"
proof (induction xs arbitrary: m)
  case Nil
  then show ?case by simp
next
  case (Cons a xs)
  show ?case
  proof (cases "x = a")
    case True
    have "a \<le> max a m" by simp
    also have "\<dots> \<le> fold max xs (max a m)" by (rule fold_max_ge_init)
    finally show ?thesis using True by simp
  next
    case False
    with Cons show ?thesis by simp
  qed
qed

lemma new_rowid_fresh: "(i, r) \<in> set t \<Longrightarrow> i < new_rowid t"
  unfolding new_rowid_def
  by (metis fold_max_ge image_eqI fst_conv le_imp_less_Suc list.set_map)

lemma new_rowid_pos [simp]: "0 < new_rowid t"
  by (simp add: new_rowid_def)

lemma insert_row_fst [simp]: "fst (insert_row r t) = new_rowid t"
  by (simp add: insert_row_def Let_def)

lemma insert_row_snd [simp]: "snd (insert_row r t) = t @ [(new_rowid t, r)]"
  by (simp add: insert_row_def Let_def)

lemma wf_table_Nil [simp]: "wf_table []"
  by (simp add: wf_table_def)

lemma wf_table_insert_row:
  "wf_table t \<Longrightarrow> wf_table (snd (insert_row r t))"
  by (auto simp: wf_table_def sorted_wrt_append dest: new_rowid_fresh)

lemma wf_table_distinct: "wf_table t \<Longrightarrow> distinct (map fst t)"
  by (auto simp: wf_table_def intro: sorted_wrt_less_idx strict_sorted_iff [THEN iffD1, THEN conjunct2])

lemma select_first_insert_row_fresh:
  "\<forall>x \<in> set t. \<not> p x \<Longrightarrow> p (new_rowid t, r) \<Longrightarrow>
   select_first p (snd (insert_row r t)) = Some (new_rowid t, r)"
proof -
  assume "\<forall>x \<in> set t. \<not> p x" and "p (new_rowid t, r)"
  moreover from this have "find p t = None" by (simp add: find_None_iff)
  ultimately show ?thesis by (simp add: select_first_def find_append)
qed

lemma select_first_insert_row_old:
  "select_first p t = Some x \<Longrightarrow> select_first p (snd (insert_row r t)) = Some x"
  by (simp add: select_first_def find_append)

lemma select_all_insert_row [simp]:
  "select_all (snd (insert_row r t)) = select_all t @ [(new_rowid t, r)]"
  by (simp add: select_all_def)

end
