(* ===== verification/ReadCache.thy ===== *)
theory ReadCache
  imports Store "HOL-Library.Sublist"
begin

text \<open>
  The Read Cache and the Invalidation Controller (spec sections 4.1 and 4.2). The sources
  reach them through framework calls: React's \<open>cache(fn)\<close> (per render cycle, used by
  \<open>getMessages\<close> in \<open>lib/messages.js\<close>) and Next.js's route cache with
  \<open>revalidatePath\<close> / \<open>revalidateTag\<close> (the "until invalidated" mode, referenced in
  \<open>app/messages/new/page.js\<close>). Both are modelled from the spec's contract.

  A cache maps a key to a value and the set of tags it was stored with, and counts the
  loads it has made (each load is one store query). A loader is a function of the key and
  the store state that may fail. Invalidation removes every entry carrying a matching tag,
  so that the next \<open>get\<close> of it loads again; failures are never stored.
\<close>

record ('k, 't, 'v) read_cache =
  entries :: "'k \<rightharpoonup> 'v \<times> 't set"
  loads :: nat

type_synonym ('k, 'db, 'v) loader = "'k \<Rightarrow> 'db \<Rightarrow> store_error + 'v"

datatype cache_mode = PerCycle | UntilInvalidated

definition cache_empty :: "('k, 't, 'v) read_cache" where
  "cache_empty = \<lparr>entries = Map.empty, loads = 0\<rparr>"

text \<open>\<open>get(key, scopeTags, loader)\<close>: a hit returns the stored value without loading;
  a miss loads, stores a success with its tags and returns it; a failure is returned and
  not stored.\<close>

definition cache_get ::
  "('k, 'db, 'v) loader \<Rightarrow> 'db \<Rightarrow> 'k \<Rightarrow> 't set \<Rightarrow> ('k, 't, 'v) read_cache
     \<Rightarrow> (store_error + 'v) \<times> ('k, 't, 'v) read_cache" where
  "cache_get ld db k ts c =
     (case entries c k of
        Some (v, _) \<Rightarrow> (Inr v, c)
      | None \<Rightarrow>
          (case ld k db of
             Inl e \<Rightarrow> (Inl e, c\<lparr>loads := Suc (loads c)\<rparr>)
           | Inr v \<Rightarrow> (Inr v, c\<lparr>entries := (entries c)(k \<mapsto> (v, ts)), loads := Suc (loads c)\<rparr>)))"

text \<open>Several reads in one cycle, in order.\<close>

fun cache_gets ::
  "('k, 'db, 'v) loader \<Rightarrow> 'db \<Rightarrow> ('k \<times> 't set) list \<Rightarrow> ('k, 't, 'v) read_cache
     \<Rightarrow> (store_error + 'v) list \<times> ('k, 't, 'v) read_cache" where
  "cache_gets ld db [] c = ([], c)"
| "cache_gets ld db ((k, ts) # rs) c =
     (let (r, c') = cache_get ld db k ts c;
          (rs', c'') = cache_gets ld db rs c'
      in (r # rs', c''))"

text \<open>End of a request/render cycle: the per-cycle mode clears every entry.\<close>

definition end_cycle :: "cache_mode \<Rightarrow> ('k, 't, 'v) read_cache \<Rightarrow> ('k, 't, 'v) read_cache" where
  "end_cycle m c = (case m of PerCycle \<Rightarrow> c\<lparr>entries := Map.empty\<rparr> | UntilInvalidated \<Rightarrow> c)"

subsection \<open>Invalidation Controller\<close>

definition invalidate_where :: "('t \<Rightarrow> bool) \<Rightarrow> ('k, 't, 'v) read_cache \<Rightarrow> ('k, 't, 'v) read_cache" where
  "invalidate_where P c =
     c\<lparr>entries := (\<lambda>k. case entries c k of
                          None \<Rightarrow> None
                        | Some (v, ts) \<Rightarrow> if \<exists>t \<in> ts. P t then None else Some (v, ts))\<rparr>"

text \<open>\<open>invalidate(tag)\<close>, the exact scope.\<close>

definition invalidate :: "'t \<Rightarrow> ('k, 't, 'v) read_cache \<Rightarrow> ('k, 't, 'v) read_cache" where
  "invalidate t = invalidate_where (\<lambda>t'. t' = t)"

text \<open>Scopes named by route paths, split into segments. \<open>revalidatePath(p, 'page')\<close>
  is the exact scope; \<open>revalidatePath(p, 'layout')\<close> the subtree: the path and every
  path below it.\<close>

type_synonym route = "string list"

datatype revalidate_kind = PageScope | LayoutScope

definition revalidate_path :: "revalidate_kind \<Rightarrow> route \<Rightarrow> ('k, route, 'v) read_cache \<Rightarrow> ('k, route, 'v) read_cache" where
  "revalidate_path kind p =
     invalidate_where (case kind of PageScope \<Rightarrow> (\<lambda>t. t = p) | LayoutScope \<Rightarrow> (\<lambda>t. prefix p t))"

text \<open>\<open>onMutationSuccess(tags)\<close>: invalidate each tag in turn.\<close>

definition on_mutation_success :: "'t list \<Rightarrow> ('k, 't, 'v) read_cache \<Rightarrow> ('k, 't, 'v) read_cache" where
  "on_mutation_success tags c = fold invalidate tags c"

text \<open>Coherence with the store: every entry holds what its loader returns now.\<close>

definition coherent :: "('k, 'db, 'v) loader \<Rightarrow> 'db \<Rightarrow> ('k, 't, 'v) read_cache \<Rightarrow> bool" where
  "coherent ld db c \<longleftrightarrow> (\<forall>k v ts. entries c k = Some (v, ts) \<longrightarrow> ld k db = Inr v)"

section \<open>Lemmas\<close>

named_theorems cache_simps "unfolding the cache operations"

lemma cache_get_hit [cache_simps]:
  "entries c k = Some (v, ts') \<Longrightarrow> cache_get ld db k ts c = (Inr v, c)"
  by (simp add: cache_get_def)

lemma cache_get_miss_ok [cache_simps]:
  "entries c k = None \<Longrightarrow> ld k db = Inr v \<Longrightarrow>
   cache_get ld db k ts c = (Inr v, c\<lparr>entries := (entries c)(k \<mapsto> (v, ts)), loads := Suc (loads c)\<rparr>)"
  by (simp add: cache_get_def)

lemma cache_get_miss_err [cache_simps]:
  "entries c k = None \<Longrightarrow> ld k db = Inl e \<Longrightarrow>
   cache_get ld db k ts c = (Inl e, c\<lparr>loads := Suc (loads c)\<rparr>)"
  by (simp add: cache_get_def)

lemma cache_empty_simps [simp]:
  "entries cache_empty = Map.empty" "loads cache_empty = 0"
  by (simp_all add: cache_empty_def)

lemma entries_invalidate_where [simp]:
  "entries (invalidate_where P c) k =
     (case entries c k of None \<Rightarrow> None
      | Some (v, ts) \<Rightarrow> if \<exists>t \<in> ts. P t then None else Some (v, ts))"
  by (simp add: invalidate_where_def)

lemma loads_invalidate_where [simp]: "loads (invalidate_where P c) = loads c"
  by (simp add: invalidate_where_def)

lemma cache_get_cases:
  obtains (hit) v ts' where "entries c k = Some (v, ts')" "cache_get ld db k ts c = (Inr v, c)"
  | (ok) v where "entries c k = None" "ld k db = Inr v"
      "cache_get ld db k ts c = (Inr v, c\<lparr>entries := (entries c)(k \<mapsto> (v, ts)), loads := Suc (loads c)\<rparr>)"
  | (err) e where "entries c k = None" "ld k db = Inl e"
      "cache_get ld db k ts c = (Inl e, c\<lparr>loads := Suc (loads c)\<rparr>)"
  by (cases "entries c k"; cases "ld k db") (auto simp: cache_simps)

lemma coherent_cache_empty [simp]: "coherent ld db cache_empty"
  by (simp add: coherent_def)

lemma coherent_invalidate_where: "coherent ld db c \<Longrightarrow> coherent ld db (invalidate_where P c)"
  by (auto simp: coherent_def split: option.splits if_splits)

lemma coherent_cache_get: "coherent ld db c \<Longrightarrow> coherent ld db (snd (cache_get ld db k ts c))"
  by (cases rule: cache_get_cases [of c k ld db ts]) (auto simp: coherent_def)

lemma cache_get_coherent_result:
  "coherent ld db c \<Longrightarrow> fst (cache_get ld db k ts c) = ld k db"
  by (cases rule: cache_get_cases [of c k ld db ts]) (auto simp: coherent_def)

lemma cache_get_stores:
  "fst (cache_get ld db k ts c) = Inr v \<Longrightarrow> \<exists>ts'. entries (snd (cache_get ld db k ts c)) k = Some (v, ts')"
  by (cases rule: cache_get_cases [of c k ld db ts]) auto

lemma invalidate_where_invalidate_where:
  "invalidate_where P (invalidate_where Q c) = invalidate_where (\<lambda>t. Q t \<or> P t) c"
  unfolding invalidate_where_def
  by (cases c) (auto simp: fun_eq_iff split: option.splits)

lemma invalidate_where_False [simp]: "invalidate_where (\<lambda>t. False) c = c"
  unfolding invalidate_where_def
  by (cases c) (simp add: fun_eq_iff split: option.splits)

lemma cache_gets_Cons [simp]:
  "fst (cache_gets ld db ((k, ts) # rs) c) =
     fst (cache_get ld db k ts c) # fst (cache_gets ld db rs (snd (cache_get ld db k ts c)))"
  "snd (cache_gets ld db ((k, ts) # rs) c) = snd (cache_gets ld db rs (snd (cache_get ld db k ts c)))"
  by (simp_all add: case_prod_beta)

declare cache_gets.simps(2) [simp del]

lemma fold_invalidate:
  "fold invalidate tags c = invalidate_where (\<lambda>t. t \<in> set tags) c"
proof (induction tags arbitrary: c)
  case Nil
  then show ?case by simp
next
  case (Cons t tags)
  have "fold invalidate (t # tags) c = invalidate_where (\<lambda>t'. t' \<in> set tags) (invalidate t c)"
    using Cons.IH by simp
  also have "\<dots> = invalidate_where (\<lambda>t'. t' \<in> set (t # tags)) c"
    by (auto simp: invalidate_def invalidate_where_invalidate_where intro: arg_cong [where f = "\<lambda>P. invalidate_where P c"])
  finally show ?case .
qed

lemma coherent_after_invalidation:
  assumes "coherent ld db c"
    and "\<forall>k v ts. entries c k = Some (v, ts) \<longrightarrow> ld k db' \<noteq> ld k db \<longrightarrow> (\<exists>t \<in> ts. P t)"
  shows "coherent ld db' (invalidate_where P c)"
  using assms by (fastforce simp: coherent_def split: option.splits if_splits)

text \<open>Distinct keys read in one cycle, every load succeeding: one load per key not
  already cached.\<close>

lemma cache_gets_loads_aux:
  assumes "\<forall>k \<in> set (map fst rs). \<exists>v. ld k db = Inr v"
  shows "loads (snd (cache_gets ld db rs c)) = loads c + card (set (map fst rs) - dom (entries c))
         \<and> dom (entries (snd (cache_gets ld db rs c))) = dom (entries c) \<union> set (map fst rs)"
  using assms
proof (induction rs arbitrary: c)
  case Nil
  then show ?case by simp
next
  case (Cons r rs)
  obtain k ts where r: "r = (k, ts)" by fastforce
  from Cons.prems r obtain v where v: "ld k db = Inr v" by auto
  let ?c' = "snd (cache_get ld db k ts c)"
  have IH: "loads (snd (cache_gets ld db rs ?c')) = loads ?c' + card (set (map fst rs) - dom (entries ?c'))
            \<and> dom (entries (snd (cache_gets ld db rs ?c'))) = dom (entries ?c') \<union> set (map fst rs)"
    using Cons.prems by (intro Cons.IH) auto
  show ?case
  proof (cases "k \<in> dom (entries c)")
    case True
    then obtain v' ts' where "entries c k = Some (v', ts')" by auto
    then have "?c' = c" by (simp add: cache_simps)
    with IH True show ?thesis by (simp add: r insert_absorb)
  next
    case False
    then have hit: "entries c k = None" by auto
    then have c': "?c' = c\<lparr>entries := (entries c)(k \<mapsto> (v, ts)), loads := Suc (loads c)\<rparr>"
      using v by (simp add: cache_simps)
    let ?A = "set (map fst (r # rs)) - dom (entries c)"
    have eq: "set (map fst rs) - insert k (dom (entries c)) = ?A - {k}"
      by (auto simp: r)
    have "finite ?A" by simp
    moreover have "k \<in> ?A" using False by (simp add: r)
    ultimately have "Suc (card (?A - {k})) = card ?A" by (rule card_Suc_Diff1)
    then have "Suc (card (set (map fst rs) - insert k (dom (entries c)))) = card ?A"
      by (simp only: eq)
    with IH c' show ?thesis by (auto simp: r)
  qed
qed

lemma cache_get_after_invalidate:
  assumes "entries c k = Some (v, ts)" and "\<exists>t \<in> ts. P t"
  shows "cache_get ld db k ts' (invalidate_where P c) =
           (case ld k db of Inl e \<Rightarrow> (Inl e, (invalidate_where P c)\<lparr>loads := Suc (loads c)\<rparr>)
            | Inr v' \<Rightarrow> (Inr v', (invalidate_where P c)\<lparr>entries := (entries (invalidate_where P c))(k \<mapsto> (v', ts')),
                                                      loads := Suc (loads c)\<rparr>))"
  using assms by (simp add: cache_get_def split: sum.splits)

section \<open>Properties of the cache contract\<close>

text \<open>Refinement of the uncached read: on a cache coherent with the store, \<open>get\<close>
  returns exactly what the loader returns on the current store, and the cache stays
  coherent.\<close>

theorem cache_get_transparent:
  assumes "coherent ld db c"
  shows "fst (cache_get ld db k ts c) = ld k db \<and> coherent ld db (snd (cache_get ld db k ts c))"
  using assms by (simp add: cache_get_coherent_result coherent_cache_get)

theorem cache_get_transparent_witness:
  "coherent (\<lambda>k (db::nat). Inr (k + db)) 5 (cache_empty :: (nat, nat, nat) read_cache) \<and>
   fst (cache_get (\<lambda>k db. Inr (k + db)) 5 2 {} (cache_empty :: (nat, nat, nat) read_cache)) = Inr 7"
  using cache_get_transparent [of "\<lambda>k (db::nat). Inr (k + db)" 5 "cache_empty :: (nat, nat, nat) read_cache" 2 "{}"]
  by simp

text \<open>Memoization and referential stability: once a read of a key has succeeded in a
  cycle, every later read of that key returns the same value without loading, whatever the
  store holds by then.\<close>

theorem cache_memoization:
  assumes "fst (cache_get ld db k ts c) = Inr v"
  shows "cache_get ld db' k ts' (snd (cache_get ld db k ts c)) = (Inr v, snd (cache_get ld db k ts c))"
  using cache_get_stores [OF assms] by (auto simp: cache_simps)

theorem cache_memoization_witness:
  "fst (cache_get (\<lambda>k (db::nat). Inr (k + db)) 5 (2::nat) ({}::nat set) cache_empty) = Inr (7::nat) \<and>
   cache_get (\<lambda>k db. Inr (k + db)) 9 2 {} (snd (cache_get (\<lambda>k (db::nat). Inr (k + db)) 5 (2::nat) ({}::nat set) cache_empty))
     = (Inr 7, snd (cache_get (\<lambda>k (db::nat). Inr (k + db)) 5 (2::nat) ({}::nat set) cache_empty))"
proof -
  have h: "fst (cache_get (\<lambda>k (db::nat). Inr (k + db)) 5 (2::nat) ({}::nat set) cache_empty) = Inr (7::nat)"
    by (simp add: cache_get_def)
  show ?thesis using h cache_memoization [OF h, of 9 "{}"] by simp
qed

text \<open>Single flight: reading a list of keys in one cycle from an empty cache, every
  load succeeding, queries the store exactly once per distinct key.\<close>

theorem cache_single_flight:
  assumes "\<forall>k \<in> set (map fst rs). \<exists>v. ld k db = Inr v"
  shows "loads (snd (cache_gets ld db rs cache_empty)) = card (set (map fst rs))"
  using cache_gets_loads_aux [of rs ld db cache_empty] assms by simp

theorem cache_single_flight_witness:
  "(\<forall>k \<in> set (map fst [(1::nat, {}::nat set), (2, {}), (1, {})]). \<exists>v. (\<lambda>k (db::nat). Inr (k + db) :: store_error + nat) k 0 = Inr v) \<and>
   loads (snd (cache_gets (\<lambda>k (db::nat). Inr (k + db) :: store_error + nat) 0 [(1::nat, {}::nat set), (2, {}), (1, {})] cache_empty)) = 2"
  using cache_single_flight [of "[(1::nat, {}::nat set), (2, {}), (1, {})]" "\<lambda>k (db::nat). Inr (k + db) :: store_error + nat" 0]
  by (simp add: card_insert_if)

text \<open>No negative caching: a failed load is returned to the caller, counted as a
  query, and not stored, so the next read of the key loads again.\<close>

theorem cache_no_negative:
  assumes "entries c k = None" and "ld k db = Inl e"
  shows "fst (cache_get ld db k ts c) = Inl e \<and> entries (snd (cache_get ld db k ts c)) k = None
         \<and> loads (snd (cache_get ld db k ts c)) = Suc (loads c)"
  using assms by (simp add: cache_simps)

theorem cache_no_negative_witness:
  "entries (cache_empty :: (nat, nat, nat) read_cache) 1 = None \<and> (\<lambda>k (db::nat). Inl StoreUnavailable :: store_error + nat) 1 0 = Inl StoreUnavailable \<and>
   fst (cache_get (\<lambda>k (db::nat). Inl StoreUnavailable :: store_error + nat) 0 1 {} (cache_empty :: (nat, nat, nat) read_cache)) = Inl StoreUnavailable"
  using cache_no_negative [of "cache_empty :: (nat, nat, nat) read_cache" 1 "\<lambda>k (db::nat). Inl StoreUnavailable :: store_error + nat" 0 StoreUnavailable "{}"]
  by simp

text \<open>Staleness: after \<open>invalidate(t)\<close> an entry carrying \<open>t\<close> is gone, and the
  next read of its key loads again and returns what the loader returns now.\<close>

theorem invalidate_forces_reload:
  assumes "entries c k = Some (v, ts)" and "t \<in> ts"
  shows "entries (invalidate t c) k = None \<and> fst (cache_get ld db k ts' (invalidate t c)) = ld k db
         \<and> loads (snd (cache_get ld db k ts' (invalidate t c))) = Suc (loads c)"
proof -
  have eq: "cache_get ld db k ts' (invalidate t c) =
           (case ld k db of Inl e \<Rightarrow> (Inl e, (invalidate t c)\<lparr>loads := Suc (loads c)\<rparr>)
            | Inr v' \<Rightarrow> (Inr v', (invalidate t c)\<lparr>entries := (entries (invalidate t c))(k \<mapsto> (v', ts')),
                                                      loads := Suc (loads c)\<rparr>))"
    unfolding invalidate_def using assms by (intro cache_get_after_invalidate) auto
  have "entries (invalidate t c) k = None" using assms by (simp add: invalidate_def)
  with eq show ?thesis by (cases "ld k db") simp_all
qed

theorem invalidate_forces_reload_witness:
  "entries (\<lparr>entries = [1 \<mapsto> (3, {''msg''})], loads = 1\<rparr> :: (nat, string, nat) read_cache) 1 = Some (3, {''msg''}) \<and>
   ''msg'' \<in> {''msg''} \<and>
   fst (cache_get (\<lambda>k (db::nat). Inr (k + db)) 4 1 {''msg''} (invalidate ''msg'' \<lparr>entries = [1 \<mapsto> (3, {''msg''})], loads = 1\<rparr>)) = Inr 5"
  using invalidate_forces_reload [of "\<lparr>entries = [1 \<mapsto> (3, {''msg''})], loads = 1\<rparr> :: (nat, string, nat) read_cache" 1 3 "{''msg''}" "''msg''" "\<lambda>k (db::nat). Inr (k + db)" 4 "{''msg''}"]
  by simp

text \<open>\<open>invalidate\<close> is idempotent: invalidating a tag twice is invalidating it
  once.\<close>

theorem invalidate_idempotent: "invalidate t (invalidate t c) = invalidate t c"
  by (simp add: invalidate_def invalidate_where_invalidate_where)

text \<open>Invalidating a tag that no entry carries changes nothing and is no error.\<close>

theorem invalidate_noop:
  assumes "\<forall>k v ts. entries c k = Some (v, ts) \<longrightarrow> t \<notin> ts"
  shows "invalidate t c = c"
  using assms unfolding invalidate_def invalidate_where_def
  by (cases c) (auto simp: fun_eq_iff split: option.splits)

theorem invalidate_noop_witness:
  "(\<forall>k v ts. entries (\<lparr>entries = [1 \<mapsto> (3, {''msg''})], loads = 1\<rparr> :: (nat, string, nat) read_cache) k = Some (v, ts) \<longrightarrow> ''post'' \<notin> ts) \<and>
   invalidate ''post'' (\<lparr>entries = [1 \<mapsto> (3, {''msg''})], loads = 1\<rparr> :: (nat, string, nat) read_cache) = \<lparr>entries = [1 \<mapsto> (3, {''msg''})], loads = 1\<rparr>"
proof -
  have h: "\<forall>k v ts. entries (\<lparr>entries = [1 \<mapsto> (3, {''msg''})], loads = 1\<rparr> :: (nat, string, nat) read_cache) k = Some (v, ts) \<longrightarrow> ''post'' \<notin> ts"
    by simp
  show ?thesis using h invalidate_noop [OF h] by simp
qed

text \<open>Mutation then invalidation keeps the cache coherent: if the store changes
  from \<open>db\<close> to \<open>db'\<close> and every cached entry whose loader result changed carries one
  of the invalidated tags, the cache after \<open>onMutationSuccess(tags)\<close> is coherent with
  the new store.\<close>

theorem mutation_then_invalidate_coherent:
  assumes "coherent ld db c"
    and "\<forall>k v ts. entries c k = Some (v, ts) \<longrightarrow> ld k db' \<noteq> ld k db \<longrightarrow> (\<exists>t \<in> ts. t \<in> set tags)"
  shows "coherent ld db' (on_mutation_success tags c)"
  using coherent_after_invalidation [OF assms] by (simp add: on_mutation_success_def fold_invalidate)

theorem mutation_then_invalidate_coherent_witness:
  "coherent (\<lambda>k (db::nat). Inr (k + db)) 4 (\<lparr>entries = [1 \<mapsto> (5, {''msg''})], loads = 1\<rparr> :: (nat, string, nat) read_cache) \<and>
   (\<forall>k v ts. entries (\<lparr>entries = [1 \<mapsto> (5, {''msg''})], loads = 1\<rparr> :: (nat, string, nat) read_cache) k = Some (v, ts) \<longrightarrow>
      (\<lambda>k (db::nat). Inr (k + db) :: store_error + nat) k 7 \<noteq> (\<lambda>k (db::nat). Inr (k + db)) k 4 \<longrightarrow> (\<exists>t \<in> ts. t \<in> set [''msg''])) \<and>
   coherent (\<lambda>k (db::nat). Inr (k + db)) 7 (on_mutation_success [''msg''] (\<lparr>entries = [1 \<mapsto> (5, {''msg''})], loads = 1\<rparr> :: (nat, string, nat) read_cache))"
proof -
  have h1: "coherent (\<lambda>k (db::nat). Inr (k + db)) 4 (\<lparr>entries = [1 \<mapsto> (5, {''msg''})], loads = 1\<rparr> :: (nat, string, nat) read_cache)"
    by (simp add: coherent_def)
  have h2: "\<forall>k v ts. entries (\<lparr>entries = [1 \<mapsto> (5, {''msg''})], loads = 1\<rparr> :: (nat, string, nat) read_cache) k = Some (v, ts) \<longrightarrow>
      (\<lambda>k (db::nat). Inr (k + db) :: store_error + nat) k 7 \<noteq> (\<lambda>k (db::nat). Inr (k + db)) k 4 \<longrightarrow> (\<exists>t \<in> ts. t \<in> set [''msg''])"
    by simp
  show ?thesis using h1 h2 mutation_then_invalidate_coherent [OF h1 h2] by blast
qed

text \<open>Subtree invalidation: \<open>revalidatePath(p, 'layout')\<close> removes exactly the
  entries carrying the scope \<open>p\<close> or a path below it; unrelated entries stay.\<close>

theorem revalidate_layout_subtree:
  assumes "entries c k = Some (v, ts)"
  shows "entries (revalidate_path LayoutScope p c) k = None \<longleftrightarrow> (\<exists>q. p @ q \<in> ts)"
  using assms by (auto simp: revalidate_path_def prefix_def)

theorem revalidate_layout_subtree_witness:
  "entries (\<lparr>entries = [0 \<mapsto> (1, {[''archive'', ''2024'', ''05'']}), 1 \<mapsto> (2, {[''messages'']})], loads = 2\<rparr> :: (nat, route, nat) read_cache) 0
     = Some (1, {[''archive'', ''2024'', ''05'']}) \<and>
   entries (revalidate_path LayoutScope [''archive''] (\<lparr>entries = [0 \<mapsto> (1, {[''archive'', ''2024'', ''05'']}), 1 \<mapsto> (2, {[''messages'']})], loads = 2\<rparr> :: (nat, route, nat) read_cache)) 0 = None"
proof -
  have h: "entries (\<lparr>entries = [0 \<mapsto> (1, {[''archive'', ''2024'', ''05'']}), 1 \<mapsto> (2, {[''messages'']})], loads = 2\<rparr> :: (nat, route, nat) read_cache) 0
     = Some (1, {[''archive'', ''2024'', ''05'']})" by simp
  have "\<exists>q. [''archive''] @ q \<in> {[''archive'', ''2024'', ''05'']}" by simp
  then show ?thesis using h revalidate_layout_subtree [OF h, of "[''archive'']"] by blast
qed

end
