(* ===== verification/Messages.thy ===== *)
theory Messages
  imports ReadCache
begin

text \<open>
  The messages feature (\<open>src/3 Udemy/6-caching/lib/messages.js\<close>,
  \<open>src/6-caching/app/messages/layout.js\<close>, \<open>page.js\<close> and \<open>new/page.js\<close>).
  The \<open>messages\<close> table has an \<open>INTEGER PRIMARY KEY\<close> id and a nullable
  \<open>text\<close> column. \<open>getMessages\<close> is wrapped in React's \<open>cache\<close>: the per-cycle
  mode of the Read Cache, keyed by the empty argument list. One render of
  \<open>/messages\<close> runs the layout and the page in one cycle. The rendered route is kept
  in Next's route cache (the "until invalidated" mode), tagged with its path; the server
  action \<open>createMessage\<close> inserts a row and redirects, and its \<open>revalidatePath\<close>
  call is commented out in the source.
\<close>

section \<open>The store\<close>

type_synonym message_row = "string option"

record message =
  msg_id :: nat
  msg_text :: "string option"

record messages_db =
  messages_tbl :: "message_row table"
  db_online :: bool

text \<open>\<open>initDb\<close>: \<open>CREATE TABLE IF NOT EXISTS messages\<close> keeps an existing table and
  creates an empty one otherwise.\<close>

definition initDb :: "message_row table option \<Rightarrow> message_row table" where
  "initDb t = (case t of None \<Rightarrow> [] | Some rows \<Rightarrow> rows)"

definition addMessage :: "string option \<Rightarrow> messages_db \<Rightarrow> store_error + messages_db" where
  "addMessage m db =
     (if db_online db then Inr (db\<lparr>messages_tbl := snd (insert_row m (messages_tbl db))\<rparr>)
      else Inl StoreUnavailable)"

text \<open>The body of \<open>getMessages\<close> (\<open>SELECT * FROM messages\<close>), as a loader of the
  cache; every call of it logs "Fetching messages from db" once.\<close>

definition fetch_messages :: "unit \<Rightarrow> messages_db \<Rightarrow> store_error + message list" where
  "fetch_messages u db =
     (if db_online db
      then Inr (map (\<lambda>(i, t). \<lparr>msg_id = i, msg_text = t\<rparr>) (select_all (messages_tbl db)))
      else Inl StoreUnavailable)"

type_synonym cycle_cache = "(unit, unit, message list) read_cache"

definition getMessages :: "messages_db \<Rightarrow> cycle_cache \<Rightarrow> (store_error + message list) \<times> cycle_cache" where
  "getMessages db c = cache_get fetch_messages db () {} c"

section \<open>Rendering \<open>/messages\<close>\<close>

datatype messages_view = NoMessagesFound | MessageList "message list"

text \<open>\<open>MessagesLayout\<close> renders the number of messages.\<close>

definition MessagesLayout :: "messages_db \<Rightarrow> cycle_cache \<Rightarrow> (store_error + nat) \<times> cycle_cache" where
  "MessagesLayout db c =
     (let (r, c') = getMessages db c in (case r of Inl e \<Rightarrow> Inl e | Inr ms \<Rightarrow> Inr (length ms), c'))"

text \<open>\<open>MessagesPage\<close>: \<open>!messages || messages.length === 0\<close> shows the empty
  notice (an array is never falsy), otherwise the list.\<close>

definition MessagesPage :: "messages_db \<Rightarrow> cycle_cache \<Rightarrow> (store_error + messages_view) \<times> cycle_cache" where
  "MessagesPage db c =
     (let (r, c') = getMessages db c
      in (case r of Inl e \<Rightarrow> Inl e
          | Inr ms \<Rightarrow> Inr (if ms = [] then NoMessagesFound else MessageList ms), c'))"

text \<open>One render cycle of \<open>/messages\<close>: the layout, then the page, then the cycle's
  cache is dropped. The result pairs the layout's count with the page's view; the second
  component counts the store queries of the cycle.\<close>

definition render_messages :: "messages_db \<Rightarrow> (store_error + nat \<times> messages_view) \<times> nat" where
  "render_messages db =
     (let (l, c1) = MessagesLayout db cache_empty;
          (p, c2) = MessagesPage db c1
      in ((case l of Inl e \<Rightarrow> Inl e | Inr n \<Rightarrow> (case p of Inl e \<Rightarrow> Inl e | Inr v \<Rightarrow> Inr (n, v))),
          loads c2))"

section \<open>The route cache and the server action\<close>

datatype messages_route = MessagesRoute

definition messages_path :: route where
  "messages_path = [''messages'']"

type_synonym route_cache = "(messages_route, route, nat \<times> messages_view) read_cache"

definition route_loader :: "messages_route \<Rightarrow> messages_db \<Rightarrow> store_error + nat \<times> messages_view" where
  "route_loader r db = fst (render_messages db)"

text \<open>A request for \<open>/messages\<close> is served from the route cache.\<close>

definition serve_messages :: "messages_db \<Rightarrow> route_cache \<Rightarrow> (store_error + nat \<times> messages_view) \<times> route_cache" where
  "serve_messages db rc = cache_get route_loader db MessagesRoute {messages_path} rc"

datatype action_result = Redirect route

text \<open>\<open>createMessage(formData)\<close>: \<open>formData.get('message')\<close> (\<open>null\<close> when the field
  is missing), \<open>addMessage\<close>, then \<open>redirect('/messages')\<close>. No revalidation.\<close>

definition createMessage :: "string option \<Rightarrow> messages_db \<Rightarrow> store_error + action_result \<times> messages_db" where
  "createMessage m db =
     (case addMessage m db of Inl e \<Rightarrow> Inl e | Inr db' \<Rightarrow> Inr (Redirect messages_path, db'))"

text \<open>The contract of spec section 4.2 for the same action: the mutation, then the
  invalidation of the page's scope (the commented-out \<open>revalidatePath('/messages')\<close>).\<close>

definition create_message_then_revalidate ::
  "string option \<Rightarrow> messages_db \<Rightarrow> route_cache \<Rightarrow> store_error + messages_db \<times> route_cache" where
  "create_message_then_revalidate m db rc =
     (case createMessage m db of Inl e \<Rightarrow> Inl e
      | Inr (_, db') \<Rightarrow> Inr (db', revalidate_path PageScope messages_path rc))"

text \<open>Every entry of the route cache is tagged with the path of its route, as
  \<open>serve_messages\<close> stores it.\<close>

definition route_tagged :: "route_cache \<Rightarrow> bool" where
  "route_tagged rc \<longleftrightarrow> (\<forall>k v ts. entries rc k = Some (v, ts) \<longrightarrow> messages_path \<in> ts)"

text \<open>Scenario 1 of the spec: three messages in the store.\<close>

definition scenario1_db :: messages_db where
  "scenario1_db = \<lparr>messages_tbl = [(1, Some ''a''), (2, Some ''b''), (3, Some ''c'')], db_online = True\<rparr>"

section \<open>Lemmas\<close>

lemma fetch_messages_online:
  "db_online db \<Longrightarrow> fetch_messages u db = Inr (map (\<lambda>(i, t). \<lparr>msg_id = i, msg_text = t\<rparr>) (messages_tbl db))"
  by (simp add: fetch_messages_def select_all_def)

lemma render_messages_online:
  assumes "db_online db"
  shows "render_messages db =
           (Inr (length (messages_tbl db),
                 if messages_tbl db = [] then NoMessagesFound
                 else MessageList (map (\<lambda>(i, t). \<lparr>msg_id = i, msg_text = t\<rparr>) (messages_tbl db))), 1)"
  using assms
  by (simp add: render_messages_def MessagesLayout_def MessagesPage_def getMessages_def cache_empty_def cache_get_def fetch_messages_online)

lemma render_messages_offline:
  "\<not> db_online db \<Longrightarrow> render_messages db = (Inl StoreUnavailable, 2)"
  by (simp add: render_messages_def MessagesLayout_def MessagesPage_def getMessages_def
      cache_get_def fetch_messages_def cache_empty_def)

lemma createMessage_Inr:
  "createMessage m db = Inr (a, db') \<longleftrightarrow>
     db_online db \<and> a = Redirect messages_path \<and>
     db' = db\<lparr>messages_tbl := messages_tbl db @ [(new_rowid (messages_tbl db), m)]\<rparr>"
  by (auto simp: createMessage_def addMessage_def)

lemma route_loader_online:
  "db_online db \<Longrightarrow> route_loader r db =
     Inr (length (messages_tbl db),
          if messages_tbl db = [] then NoMessagesFound
          else MessageList (map (\<lambda>(i, t). \<lparr>msg_id = i, msg_text = t\<rparr>) (messages_tbl db)))"
  by (simp add: route_loader_def render_messages_online)

lemma route_tagged_empty [simp]: "route_tagged cache_empty"
  by (simp add: route_tagged_def)

lemma route_tagged_serve: "route_tagged rc \<Longrightarrow> route_tagged (snd (serve_messages db rc))"
  unfolding serve_messages_def
  by (cases rule: cache_get_cases [of rc MessagesRoute route_loader db "{messages_path}"])
     (auto simp: route_tagged_def)

lemma coherent_serve: "coherent route_loader db rc \<Longrightarrow> coherent route_loader db (snd (serve_messages db rc))"
  by (simp add: serve_messages_def coherent_cache_get)

lemma revalidate_messages_drops:
  "route_tagged rc \<Longrightarrow> entries (revalidate_path PageScope messages_path rc) k = None"
  by (auto simp: route_tagged_def revalidate_path_def split: option.splits)

section \<open>Properties\<close>

text \<open>C4. One store query per render of \<open>/messages\<close>: with React's \<open>cache\<close>, the
  layout and the page share a single \<open>SELECT\<close> (the comment at
  \<open>lib/messages.js\<close> lines 24-25), and the count the layout shows is the length of the
  list the page shows.\<close>

theorem render_messages_single_query:
  assumes "db_online db"
  shows "snd (render_messages db) = 1 \<and>
         (\<exists>v. fst (render_messages db) = Inr (length (messages_tbl db), v) \<and>
              length (messages_tbl db) = (case v of NoMessagesFound \<Rightarrow> 0 | MessageList ms \<Rightarrow> length ms))"
  using assms by (simp add: render_messages_online)

theorem render_messages_single_query_witness:
  "db_online scenario1_db \<and> snd (render_messages scenario1_db) = 1"
proof -
  have h: "db_online scenario1_db" by (simp add: scenario1_db_def)
  show ?thesis using h render_messages_single_query [OF h] by simp
qed





text \<open>C6. \<open>createMessage\<close> as written leaves \<open>/messages\<close> stale: when the route cache
  holds the page and the insert succeeds, the next request is served the page rendered
  before the insert, while a fresh render of the new store differs from it.\<close>

theorem createMessage_serves_stale:
  assumes coh: "coherent route_loader db rc"
    and cached: "entries rc MessagesRoute \<noteq> None"
    and ok: "createMessage m db = Inr (a, db')"
  shows "fst (serve_messages db' rc) = route_loader MessagesRoute db \<and>
         route_loader MessagesRoute db' \<noteq> route_loader MessagesRoute db"
proof -
  from cached obtain v ts where e: "entries rc MessagesRoute = Some (v, ts)" by auto
  with coh have old: "route_loader MessagesRoute db = Inr v" unfolding coherent_def by blast
  from e have "fst (serve_messages db' rc) = Inr v"
    by (simp add: serve_messages_def cache_simps)
  moreover from ok have on: "db_online db" and db': "db' = db\<lparr>messages_tbl := messages_tbl db @ [(new_rowid (messages_tbl db), m)]\<rparr>"
    by (auto simp: createMessage_Inr)
  then have "route_loader MessagesRoute db' \<noteq> route_loader MessagesRoute db"
    by (simp add: route_loader_online)
  ultimately show ?thesis using old by simp
qed

theorem createMessage_serves_stale_witness:
  "coherent route_loader scenario1_db (snd (serve_messages scenario1_db cache_empty)) \<and>
   entries (snd (serve_messages scenario1_db cache_empty)) MessagesRoute \<noteq> None \<and>
   createMessage (Some ''hi'') scenario1_db =
     Inr (Redirect messages_path, scenario1_db\<lparr>messages_tbl := messages_tbl scenario1_db @ [(4, Some ''hi'')]\<rparr>) \<and>
   fst (serve_messages (scenario1_db\<lparr>messages_tbl := messages_tbl scenario1_db @ [(4, Some ''hi'')]\<rparr>)
          (snd (serve_messages scenario1_db cache_empty))) = route_loader MessagesRoute scenario1_db"
proof -
  have h1: "coherent route_loader scenario1_db (snd (serve_messages scenario1_db cache_empty))"
    by (simp add: coherent_serve)
  have h2: "entries (snd (serve_messages scenario1_db cache_empty)) MessagesRoute \<noteq> None"
    by (simp add: serve_messages_def cache_get_def route_loader_online scenario1_db_def)
  have h3: "createMessage (Some ''hi'') scenario1_db =
     Inr (Redirect messages_path, scenario1_db\<lparr>messages_tbl := messages_tbl scenario1_db @ [(4, Some ''hi'')]\<rparr>)"
    by (simp add: createMessage_Inr scenario1_db_def new_rowid_def)
  show ?thesis using h1 h2 h3 createMessage_serves_stale [OF h1 h2 h3] by blast
qed

text \<open>C7. Mutation followed by invalidation (spec Scenario 1): creating a message and then
  revalidating \<open>/messages\<close> keeps the route cache coherent, and the next request shows a
  list one longer than before that ends with the new message.\<close>

theorem create_then_revalidate_fresh:
  assumes coh: "coherent route_loader db rc" and tag: "route_tagged rc"
    and ok: "create_message_then_revalidate m db rc = Inr (db', rc')"
  shows "coherent route_loader db' rc' \<and>
         (\<exists>ms. fst (serve_messages db' rc') = Inr (Suc (length (messages_tbl db)), MessageList ms) \<and>
               msg_text (last ms) = m)"
proof -
  from ok obtain a where c: "createMessage m db = Inr (a, db')"
    and rc': "rc' = revalidate_path PageScope messages_path rc"
    by (auto simp: create_message_then_revalidate_def split: sum.splits)
  from c have on: "db_online db" and db': "db' = db\<lparr>messages_tbl := messages_tbl db @ [(new_rowid (messages_tbl db), m)]\<rparr>"
    by (auto simp: createMessage_Inr)
  have none: "entries rc' MessagesRoute = None"
    using tag by (simp add: rc' revalidate_messages_drops)
  have "coherent route_loader db' rc'"
    unfolding rc' revalidate_path_def
    by (rule coherent_after_invalidation [OF coh]) (use tag in \<open>auto simp: route_tagged_def\<close>)
  moreover have "fst (serve_messages db' rc') = route_loader MessagesRoute db'"
    using none by (cases "route_loader MessagesRoute db'") (simp_all add: serve_messages_def cache_simps)
  moreover have "route_loader MessagesRoute db' =
      Inr (Suc (length (messages_tbl db)),
           MessageList (map (\<lambda>(i, t). \<lparr>msg_id = i, msg_text = t\<rparr>) (messages_tbl db @ [(new_rowid (messages_tbl db), m)])))"
    using on by (simp add: db' route_loader_online)
  ultimately show ?thesis by auto
qed

theorem create_then_revalidate_fresh_witness:
  "coherent route_loader scenario1_db (snd (serve_messages scenario1_db cache_empty)) \<and>
   route_tagged (snd (serve_messages scenario1_db cache_empty)) \<and>
   create_message_then_revalidate (Some ''hi'') scenario1_db (snd (serve_messages scenario1_db cache_empty)) =
     Inr (scenario1_db\<lparr>messages_tbl := messages_tbl scenario1_db @ [(4, Some ''hi'')]\<rparr>,
          revalidate_path PageScope messages_path (snd (serve_messages scenario1_db cache_empty))) \<and>
   (\<exists>ms. fst (serve_messages (scenario1_db\<lparr>messages_tbl := messages_tbl scenario1_db @ [(4, Some ''hi'')]\<rparr>)
                (revalidate_path PageScope messages_path (snd (serve_messages scenario1_db cache_empty))))
            = Inr (4, MessageList ms) \<and> msg_text (last ms) = Some ''hi'')"
proof -
  have h1: "coherent route_loader scenario1_db (snd (serve_messages scenario1_db cache_empty))"
    by (simp add: coherent_serve)
  have h2: "route_tagged (snd (serve_messages scenario1_db cache_empty))"
    by (simp add: route_tagged_serve)
  have h3: "create_message_then_revalidate (Some ''hi'') scenario1_db (snd (serve_messages scenario1_db cache_empty)) =
     Inr (scenario1_db\<lparr>messages_tbl := messages_tbl scenario1_db @ [(4, Some ''hi'')]\<rparr>,
          revalidate_path PageScope messages_path (snd (serve_messages scenario1_db cache_empty)))"
    by (simp add: create_message_then_revalidate_def createMessage_def addMessage_def scenario1_db_def new_rowid_def)
  have "length (messages_tbl scenario1_db) = 3" by (simp add: scenario1_db_def)
  then show ?thesis using h1 h2 h3 create_then_revalidate_fresh [OF h1 h2 h3] by simp
qed

end
