(* ===== verification/Optimistic.thy ===== *)
theory Optimistic
  imports Prelude
begin

text \<open>
  The Optimistic Mutation Coordinator of the posts feed
  (\<open>src/7-next-optimization/components/posts.js\<close>). \<open>Posts\<close> keeps its list through
  React's \<open>useOptimistic(posts, reducer)\<close>; the reducer toggles one post's like flag
  and adjusts its like count in the same step. \<open>updatePost(postId)\<close> applies the
  optimistic update and then awaits the server action \<open>togglePostLikeStatus\<close>; the
  like form of \<open>Post\<close> submits the server action directly.

  The coordinator's state is the authoritative list (the \<open>posts\<close> prop) and the queue
  of server actions in flight, each with a flag saying whether it carries an optimistic
  update. Next.js runs server actions one at a time, so they settle in order. What the
  user sees is the authoritative list with the reducer applied for each queued optimistic
  update (the semantics of \<open>useOptimistic\<close>, spec section 4.3): when an action succeeds
  the list is replaced by the revalidated one, when it fails its update is dropped.
\<close>

record post =
  post_id :: nat
  title :: string
  post_image :: string
  content :: string
  userFirstName :: string
  createdAt :: string
  likes :: int
  isLiked :: bool

text \<open>The reducer passed to \<open>useOptimistic\<close> (\<open>posts.js\<close> lines 81-96):
  \<open>findIndex\<close>, unchanged list on \<open>-1\<close>, otherwise a copy of the post with
  \<open>likes\<close> moved by one and \<open>isLiked\<close> negated, written back at the same index.\<close>

definition optimistic_reducer :: "post list \<Rightarrow> nat \<Rightarrow> post list" where
  "optimistic_reducer prevPosts updatedPostId =
     (let updatedPostIndex = js_find_index (\<lambda>p. post_id p = updatedPostId) prevPosts
      in if updatedPostIndex = -1 then prevPosts
         else
           (let updatedPost = prevPosts ! nat updatedPostIndex;
                updatedPost = updatedPost\<lparr>likes := likes updatedPost + (if isLiked updatedPost then -1 else 1)\<rparr>;
                updatedPost = updatedPost\<lparr>isLiked := \<not> isLiked updatedPost\<rparr>
            in prevPosts[nat updatedPostIndex := updatedPost]))"

datatype mutation_error = MutationFailed

record coordinator =
  base :: "post list"
  inflight :: "(nat \<times> bool) list"

text \<open>The list \<open>useOptimistic\<close> returns: the base with every queued optimistic update
  applied, oldest first.\<close>

definition optimisticPosts :: "coordinator \<Rightarrow> post list" where
  "optimisticPosts s = fold (\<lambda>(pid, opt) ps. if opt then optimistic_reducer ps pid else ps) (inflight s) (base s)"

text \<open>\<open>updatePost(postId)\<close>: \<open>updateOptimisticPosts(postId)\<close>, then the server action.\<close>

definition updatePost :: "nat \<Rightarrow> coordinator \<Rightarrow> coordinator" where
  "updatePost postId s = s\<lparr>inflight := inflight s @ [(postId, True)]\<rparr>"

text \<open>Submitting the like form of \<open>Post\<close> as the source wires it:
  \<open>action={togglePostLikeStatus.bind(null, post.id)}\<close>; the \<open>action\<close> prop that
  \<open>Posts\<close> passes (\<open>updatePost\<close>) is not used by \<open>Post\<close>.\<close>

definition submit_like_form :: "post \<Rightarrow> coordinator \<Rightarrow> coordinator" where
  "submit_like_form p s = s\<lparr>inflight := inflight s @ [(post_id p, False)]\<rparr>"

text \<open>The oldest action in flight settles: on success the list becomes the authoritative
  one the server revalidated, on failure the list stays and the failure is reported.\<close>

definition settle :: "mutation_error + post list \<Rightarrow> coordinator \<Rightarrow> coordinator \<times> mutation_error option" where
  "settle r s =
     (case inflight s of
        [] \<Rightarrow> (s, None)
      | _ # rest \<Rightarrow>
          (case r of
             Inr posts \<Rightarrow> (\<lparr>base = posts, inflight = rest\<rparr>, None)
           | Inl e \<Rightarrow> (s\<lparr>inflight := rest\<rparr>, Some e)))"

datatype posts_view = NoPostsYet | PostList "post list"

text \<open>\<open>Posts\<close> renders the empty notice for an empty list (\<open>posts.js\<close> lines 99-101).\<close>

definition Posts :: "coordinator \<Rightarrow> posts_view" where
  "Posts s = (let ps = optimisticPosts s in if ps = [] then NoPostsYet else PostList ps)"

subsection \<open>Steps and reachable states\<close>

text \<open>A post is well formed when its like count is non-negative and at least one while
  the current user likes it.\<close>

definition wf_post :: "post \<Rightarrow> bool" where
  "wf_post p \<longleftrightarrow> (if isLiked p then 1 \<le> likes p else 0 \<le> likes p)"

inductive coord_step :: "coordinator \<Rightarrow> coordinator \<Rightarrow> bool" where
  update: "coord_step s (updatePost pid s)"
| submit: "p \<in> set (optimisticPosts s) \<Longrightarrow> coord_step s (submit_like_form p s)"
| settle_ok: "\<forall>p \<in> set ps. wf_post p \<Longrightarrow> coord_step s (fst (settle (Inr ps) s))"
| settle_fail: "coord_step s (fst (settle (Inl e) s))"

inductive reachable :: "post list \<Rightarrow> coordinator \<Rightarrow> bool" for posts where
  init: "reachable posts \<lparr>base = posts, inflight = []\<rparr>"
| step: "reachable posts s \<Longrightarrow> coord_step s t \<Longrightarrow> reachable posts t"

inductive_cases coord_stepE: "coord_step s t"

text \<open>Settling the actions in flight one after another with the given results.\<close>

fun settle_all :: "(mutation_error + post list) list \<Rightarrow> coordinator \<Rightarrow> coordinator" where
  "settle_all [] s = s"
| "settle_all (r # rs) s = settle_all rs (fst (settle r s))"

text \<open>Spec Scenarios 2 and 3: a post not liked by the user, with ten likes.\<close>

definition scenario_post :: post where
  "scenario_post = \<lparr>post_id = 1, title = ''First post'', post_image = ''img.png'', content = ''hello'',
                    userFirstName = ''Ada'', createdAt = ''2024-05-01'', likes = 10, isLiked = False\<rparr>"

section \<open>Lemmas\<close>

lemma optimistic_reducer_absent:
  "\<forall>p \<in> set ps. post_id p \<noteq> pid \<Longrightarrow> optimistic_reducer ps pid = ps"
  by (simp add: optimistic_reducer_def js_find_index_neg)

lemma optimistic_reducer_found:
  assumes "i < length ps" "post_id (ps ! i) = pid" "\<forall>j < i. post_id (ps ! j) \<noteq> pid"
  shows "optimistic_reducer ps pid =
           ps[i := (ps ! i)\<lparr>likes := likes (ps ! i) + (if isLiked (ps ! i) then -1 else 1),
                            isLiked := \<not> isLiked (ps ! i)\<rparr>]"
proof -
  have "\<exists>x \<in> set ps. post_id x = pid" using assms(1,2) by (auto intro: nth_mem)
  then obtain k where k: "k < length ps" "js_find_index (\<lambda>p. post_id p = pid) ps = int k"
    "post_id (ps ! k) = pid" "\<forall>j < k. post_id (ps ! j) \<noteq> pid"
    by (rule js_find_index_found)
  have "k = i"
    using k assms by (metis linorder_neqE_nat)
  with k show ?thesis by (simp add: optimistic_reducer_def Let_def)
qed

lemma optimistic_reducer_cases:
  obtains (absent) "\<forall>p \<in> set ps. post_id p \<noteq> pid" "optimistic_reducer ps pid = ps"
  | (found) i where "i < length ps" "post_id (ps ! i) = pid" "\<forall>j < i. post_id (ps ! j) \<noteq> pid"
      "optimistic_reducer ps pid =
         ps[i := (ps ! i)\<lparr>likes := likes (ps ! i) + (if isLiked (ps ! i) then -1 else 1),
                          isLiked := \<not> isLiked (ps ! i)\<rparr>]"
proof (cases "\<exists>p \<in> set ps. post_id p = pid")
  case True
  then obtain i where "i < length ps" "js_find_index (\<lambda>p. post_id p = pid) ps = int i"
    "post_id (ps ! i) = pid" "\<forall>j < i. post_id (ps ! j) \<noteq> pid"
    by (rule js_find_index_found)
  then show ?thesis using found optimistic_reducer_found by blast
next
  case False
  then show ?thesis using absent optimistic_reducer_absent by blast
qed

lemma length_optimistic_reducer [simp]: "length (optimistic_reducer ps pid) = length ps"
  by (cases rule: optimistic_reducer_cases [of ps pid]) simp_all

lemma map_post_id_optimistic_reducer [simp]:
  "map post_id (optimistic_reducer ps pid) = map post_id ps"
proof (cases rule: optimistic_reducer_cases [of ps pid])
  case absent
  then show ?thesis by simp
next
  case (found i)
  then have "(map post_id ps)[i := post_id (ps ! i)] = map post_id ps"
    by (metis length_map list_update_id nth_map)
  with found show ?thesis by (simp add: map_update)
qed

lemma wf_post_toggle:
  "wf_post p \<Longrightarrow> wf_post (p\<lparr>likes := likes p + (if isLiked p then -1 else 1), isLiked := \<not> isLiked p\<rparr>)"
  by (cases "isLiked p") (simp_all add: wf_post_def)

lemma wf_optimistic_reducer:
  assumes wf: "\<forall>p \<in> set ps. wf_post p"
  shows "\<forall>p \<in> set (optimistic_reducer ps pid). wf_post p"
proof (cases rule: optimistic_reducer_cases [of ps pid])
  case absent
  then show ?thesis using wf by simp
next
  case (found i)
  let ?q = "(ps ! i)\<lparr>likes := likes (ps ! i) + (if isLiked (ps ! i) then -1 else 1), isLiked := \<not> isLiked (ps ! i)\<rparr>"
  from found wf have "wf_post (ps ! i)" by (simp add: nth_mem)
  then have "wf_post ?q" by (rule wf_post_toggle)
  with wf have "\<forall>p \<in> insert ?q (set ps). wf_post p" by simp
  moreover have "set (ps[i := ?q]) \<subseteq> insert ?q (set ps)" by (rule set_update_subset_insert)
  ultimately show ?thesis using found by auto
qed

lemma optimistic_reducer_twice:
  "optimistic_reducer (optimistic_reducer ps pid) pid = ps"
proof (cases rule: optimistic_reducer_cases [of ps pid])
  case absent
  then show ?thesis by (simp add: optimistic_reducer_absent)
next
  case (found i)
  let ?q = "(ps ! i)\<lparr>likes := likes (ps ! i) + (if isLiked (ps ! i) then -1 else 1), isLiked := \<not> isLiked (ps ! i)\<rparr>"
  have "optimistic_reducer (ps[i := ?q]) pid =
          (ps[i := ?q])[i := (ps[i := ?q] ! i)\<lparr>likes := likes (ps[i := ?q] ! i) + (if isLiked (ps[i := ?q] ! i) then -1 else 1),
                                               isLiked := \<not> isLiked (ps[i := ?q] ! i)\<rparr>]"
    by (rule optimistic_reducer_found) (use found in \<open>auto simp: nth_list_update\<close>)
  also have "\<dots> = ps"
    using found by (cases "isLiked (ps ! i)"; cases "ps ! i") (simp_all add: list_update_same_conv)
  finally show ?thesis using found by simp
qed

lemma optimisticPosts_updatePost [simp]:
  "optimisticPosts (updatePost pid s) = optimistic_reducer (optimisticPosts s) pid"
  by (simp add: optimisticPosts_def updatePost_def)

lemma optimisticPosts_submit_like_form [simp]:
  "optimisticPosts (submit_like_form p s) = optimisticPosts s"
  by (simp add: optimisticPosts_def submit_like_form_def)

lemma settle_Cons:
  "inflight s = a # rest \<Longrightarrow> settle (Inr ps) s = (\<lparr>base = ps, inflight = rest\<rparr>, None)"
  "inflight s = a # rest \<Longrightarrow> settle (Inl e) s = (s\<lparr>inflight := rest\<rparr>, Some e)"
  by (simp_all add: settle_def)

lemma inflight_settle: "inflight (fst (settle r s)) = tl (inflight s)"
  by (cases "inflight s"; cases r) (simp_all add: settle_def)

lemma optimisticPosts_idle: "inflight s = [] \<Longrightarrow> optimisticPosts s = base s"
  by (simp add: optimisticPosts_def)

lemma wf_fold_reducer:
  "\<forall>p \<in> set ps. wf_post p \<Longrightarrow>
   \<forall>p \<in> set (fold (\<lambda>(pid, opt) ps. if opt then optimistic_reducer ps pid else ps) q ps). wf_post p"
proof (induction q arbitrary: ps)
  case Nil
  then show ?case by simp
next
  case (Cons a q)
  obtain pid opt where a: "a = (pid, opt)" by fastforce
  have "\<forall>p \<in> set (if opt then optimistic_reducer ps pid else ps). wf_post p"
    using Cons.prems wf_optimistic_reducer by simp
  then show ?case using Cons.IH a by simp
qed

lemma wf_settle_base:
  "\<forall>p \<in> set (base s). wf_post p \<Longrightarrow> (case r of Inr ps \<Rightarrow> \<forall>p \<in> set ps. wf_post p | Inl _ \<Rightarrow> True) \<Longrightarrow>
   \<forall>p \<in> set (base (fst (settle r s))). wf_post p"
  by (cases "inflight s"; cases r) (simp_all add: settle_def)

lemma reachable_wf_base:
  "reachable posts s \<Longrightarrow> \<forall>p \<in> set posts. wf_post p \<Longrightarrow> \<forall>p \<in> set (base s). wf_post p"
proof (induction rule: reachable.induct)
  case init
  then show ?case by simp
next
  case (step s t)
  then have wf: "\<forall>p \<in> set (base s). wf_post p" by simp
  from step.hyps(2) show ?case
  proof (cases rule: coord_step.cases)
    case (update pid)
    with wf show ?thesis by (simp add: updatePost_def)
  next
    case (submit p)
    with wf show ?thesis by (simp add: submit_like_form_def)
  next
    case (settle_ok ps)
    with wf show ?thesis using wf_settle_base [of s "Inr ps"] by simp
  next
    case (settle_fail e)
    with wf show ?thesis using wf_settle_base [of s "Inl e"] by simp
  qed
qed

lemma settle_all_inflight: "inflight (settle_all rs s) = drop (length rs) (inflight s)"
  by (induction rs arbitrary: s) (simp_all add: inflight_settle drop_Suc tl_drop)

lemma inflight_fold_updatePost:
  "inflight (fold updatePost pids s) = inflight s @ map (\<lambda>p. (p, True)) pids"
  by (induction pids arbitrary: s) (simp_all add: updatePost_def)

section \<open>Properties\<close>

text \<open>C1. The reducer toggles atomically: for the first post with the given id, the like
  flag is negated and the like count moves by one in the direction of the new flag, in the
  same step; the length of the list and every other position are unchanged.\<close>

theorem optimistic_reducer_atomic:
  assumes "i < length ps" "post_id (ps ! i) = pid" "\<forall>j < i. post_id (ps ! j) \<noteq> pid"
  shows "length (optimistic_reducer ps pid) = length ps \<and>
         isLiked (optimistic_reducer ps pid ! i) = (\<not> isLiked (ps ! i)) \<and>
         likes (optimistic_reducer ps pid ! i) = likes (ps ! i) + (if isLiked (ps ! i) then -1 else 1) \<and>
         (\<forall>j < length ps. j \<noteq> i \<longrightarrow> optimistic_reducer ps pid ! j = ps ! j)"
  using optimistic_reducer_found [OF assms] assms(1) by simp

theorem optimistic_reducer_atomic_witness:
  "0 < length [scenario_post] \<and> post_id ([scenario_post] ! 0) = 1 \<and>
   isLiked (optimistic_reducer [scenario_post] 1 ! 0) \<and> likes (optimistic_reducer [scenario_post] 1 ! 0) = 11"
proof -
  have h1: "0 < length [scenario_post]" by simp
  have h2: "post_id ([scenario_post] ! 0) = 1" by (simp add: scenario_post_def)
  have h3: "\<forall>j < 0. post_id ([scenario_post] ! j) \<noteq> 1" by simp
  show ?thesis using h1 h2 h3 optimistic_reducer_atomic [OF h1 h2 h3] by (simp add: scenario_post_def)
qed

text \<open>C13. Toggling the same post twice restores the list: two unconfirmed toggles of one
  post cancel out instead of compounding.\<close>

theorem optimistic_reducer_involution: "optimistic_reducer (optimistic_reducer ps pid) pid = ps"
  by (rule optimistic_reducer_twice)

text \<open>C10. Like counts stay consistent: from posts whose counts are non-negative (and
  positive when liked), every reachable state of the coordinator shows only such posts,
  whatever the order of user actions and server results.\<close>

theorem reachable_visible_wf:
  assumes "reachable posts s" and "\<forall>p \<in> set posts. wf_post p"
  shows "\<forall>p \<in> set (optimisticPosts s). wf_post p"
  using reachable_wf_base [OF assms] by (simp add: optimisticPosts_def wf_fold_reducer)

theorem reachable_visible_wf_witness:
  "reachable [scenario_post] (updatePost 1 \<lparr>base = [scenario_post], inflight = []\<rparr>) \<and>
   list_all wf_post [scenario_post] \<and>
   list_all wf_post (optimisticPosts (updatePost 1 \<lparr>base = [scenario_post], inflight = []\<rparr>))"
proof -
  have h1: "reachable [scenario_post] (updatePost 1 \<lparr>base = [scenario_post], inflight = []\<rparr>)"
    by (rule reachable.step [OF reachable.init coord_step.update])
  have h2: "\<forall>p \<in> set [scenario_post]. wf_post p" by (simp add: scenario_post_def wf_post_def)
  show ?thesis using h1 h2 reachable_visible_wf [OF h1 h2] by (simp only: list_all_iff)
qed

text \<open>C2. Success path (spec Scenario 2): with nothing in flight, \<open>updatePost\<close> shows the
  reducer's speculative list at once, and when the server action succeeds the list becomes
  the authoritative one and nothing is left pending.\<close>

theorem updatePost_settle_success:
  assumes "inflight s = []"
  shows "optimisticPosts (updatePost pid s) = optimistic_reducer (base s) pid \<and>
         settle (Inr ps) (updatePost pid s) = (\<lparr>base = ps, inflight = []\<rparr>, None) \<and>
         optimisticPosts (fst (settle (Inr ps) (updatePost pid s))) = ps"
  using assms by (simp add: optimisticPosts_def settle_def updatePost_def)

theorem updatePost_settle_success_witness:
  "inflight \<lparr>base = [scenario_post], inflight = []\<rparr> = [] \<and>
   optimisticPosts (updatePost 1 \<lparr>base = [scenario_post], inflight = []\<rparr>) =
     [scenario_post\<lparr>likes := 11, isLiked := True\<rparr>] \<and>
   optimisticPosts (fst (settle (Inr [scenario_post\<lparr>likes := 11, isLiked := True\<rparr>])
                               (updatePost 1 \<lparr>base = [scenario_post], inflight = []\<rparr>)))
     = [scenario_post\<lparr>likes := 11, isLiked := True\<rparr>]"
proof -
  have h: "inflight \<lparr>base = [scenario_post], inflight = []\<rparr> = []" by simp
  show ?thesis
    using h updatePost_settle_success [OF h, of 1 "[scenario_post\<lparr>likes := 11, isLiked := True\<rparr>]"]
    by (simp add: optimistic_reducer_def js_find_index_def scenario_post_def optimisticPosts_def)
qed



text \<open>C8. The like form as wired never shows an optimistic update: submitting it for a
  post on the list leaves the visible list unchanged until the server answers, while
  \<open>updatePost\<close> for the same post would have changed it.\<close>

theorem like_form_not_optimistic:
  assumes "p \<in> set (optimisticPosts s)"
  shows "optimisticPosts (submit_like_form p s) = optimisticPosts s \<and>
         optimisticPosts (updatePost (post_id p) s) \<noteq> optimisticPosts s"
proof -
  let ?ps = "optimisticPosts s"
  from assms obtain k where "k < length ?ps" "?ps ! k = p" by (auto simp: in_set_conv_nth)
  then have "\<exists>x \<in> set ?ps. post_id x = post_id p" by auto
  then obtain i where i: "i < length ?ps" "post_id (?ps ! i) = post_id p" "\<forall>j < i. post_id (?ps ! j) \<noteq> post_id p"
    by (rule js_find_index_found)
  have "isLiked (optimistic_reducer ?ps (post_id p) ! i) \<noteq> isLiked (?ps ! i)"
    using optimistic_reducer_found [OF i] i(1) by simp
  then have "optimistic_reducer ?ps (post_id p) \<noteq> ?ps" by metis
  then show ?thesis by (simp only: optimisticPosts_updatePost optimisticPosts_submit_like_form) simp
qed

theorem like_form_not_optimistic_witness:
  "scenario_post \<in> set (optimisticPosts \<lparr>base = [scenario_post], inflight = []\<rparr>) \<and>
   optimisticPosts (submit_like_form scenario_post \<lparr>base = [scenario_post], inflight = []\<rparr>) = [scenario_post]"
proof -
  have h: "scenario_post \<in> set (optimisticPosts \<lparr>base = [scenario_post], inflight = []\<rparr>)"
    by (simp add: optimisticPosts_def)
  show ?thesis using h like_form_not_optimistic [OF h] by (simp add: optimisticPosts_def)
qed




end
