(* ===== verification/News.thy ===== *)
theory News
  imports Store
begin

text \<open>
  The news data access of \<open>src/4-routing-and-page-rendering/lib/news.js\<close> (lines 48-121;
  the commented-out versions over \<open>DUMMY_NEWS\<close> above them are not code). Every
  function queries the \<open>news\<close> table; the two-second \<open>setTimeout\<close> delays change no
  value and are not modelled.

  SQL pieces: \<open>strftime('%Y', date)\<close> and \<open>strftime('%m', date)\<close> are the year and
  month of a date stored as \<open>YYYY-MM-DD\<close>, and \<open>NULL\<close> (here \<open>None\<close>) for any other
  string. \<open>ORDER BY date DESC\<close> compares the text bytewise; rows with equal dates are
  kept in rowid order (SQLite leaves their order open, the model fixes the scan order).
  \<open>SELECT DISTINCT\<close> keeps the first occurrence of each value, in scan order.
  The model reads only the \<open>YYYY-MM-DD\<close> form; SQLite also accepts a time part and
  Julian day numbers, and moves a day past the end of its month into the next month
  (\<open>2024-02-31\<close> is read as March). The articles' dates are written in that form.
\<close>

record news_item =
  news_id :: string
  news_title :: string
  news_content :: string
  news_date :: string
  news_image :: string

type_synonym news_db = "news_item table"

section \<open>SQL functions\<close>

definition valid_date :: "string \<Rightarrow> bool" where
  "valid_date d \<longleftrightarrow>
     length d = 10 \<and> list_all (\<lambda>i. is_digit (d ! i)) [0, 1, 2, 3, 5, 6, 8, 9] \<and>
     d ! 4 = CHR ''-'' \<and> d ! 7 = CHR ''-'' \<and>
     ''01'' \<le> take 2 (drop 5 d) \<and> take 2 (drop 5 d) \<le> ''12'' \<and>
     ''01'' \<le> drop 8 d \<and> drop 8 d \<le> ''31''"

definition strftime_Y :: "string \<Rightarrow> string option" where
  "strftime_Y d = (if valid_date d then Some (take 4 d) else None)"

definition strftime_m :: "string \<Rightarrow> string option" where
  "strftime_m d = (if valid_date d then Some (take 2 (drop 5 d)) else None)"

text \<open>\<open>ORDER BY date DESC\<close>, stable on the scan order.\<close>

definition order_by_date_desc :: "news_item list \<Rightarrow> news_item list" where
  "order_by_date_desc xs = rev (sort_key news_date (rev xs))"

text \<open>\<open>SELECT DISTINCT\<close>: the first occurrence of each value.\<close>

definition sql_distinct :: "'a list \<Rightarrow> 'a list" where
  "sql_distinct xs = rev (remdups (rev xs))"

section \<open>The queries of \<open>lib/news.js\<close>\<close>

definition getAllNews :: "news_db \<Rightarrow> news_item list" where
  "getAllNews db = map snd (select_all db)"

text \<open>\<open>SELECT * FROM news WHERE id = ?\<close> with \<open>.get\<close>: the first such row or
  \<open>undefined\<close>.\<close>

definition getNewsItem :: "news_db \<Rightarrow> string \<Rightarrow> news_item option" where
  "getNewsItem db slug = map_option snd (select_first (\<lambda>(_, n). news_id n = slug) db)"

definition getLatestNews :: "news_db \<Rightarrow> news_item list" where
  "getLatestNews db = take 3 (order_by_date_desc (getAllNews db))"

definition getAvailableNewsYears :: "news_db \<Rightarrow> string option list" where
  "getAvailableNewsYears db = sql_distinct (map (\<lambda>n. strftime_Y (news_date n)) (getAllNews db))"

definition getAvailableNewsMonths :: "news_db \<Rightarrow> string \<Rightarrow> string option list" where
  "getAvailableNewsMonths db year =
     sql_distinct (map (\<lambda>n. strftime_m (news_date n))
                       (filter (\<lambda>n. strftime_Y (news_date n) = Some year) (getAllNews db)))"

definition getNewsForYear :: "news_db \<Rightarrow> string \<Rightarrow> news_item list" where
  "getNewsForYear db year =
     order_by_date_desc (filter (\<lambda>n. strftime_Y (news_date n) = Some year) (getAllNews db))"

definition getNewsForYearAndMonth :: "news_db \<Rightarrow> string \<Rightarrow> string \<Rightarrow> news_item list" where
  "getNewsForYearAndMonth db year month =
     order_by_date_desc (filter (\<lambda>n. strftime_Y (news_date n) = Some year \<and> strftime_m (news_date n) = Some month)
                                (getAllNews db))"

text \<open>A fixture: three articles over two years.\<close>

definition news_fixture :: news_db where
  "news_fixture =
     [(1, \<lparr>news_id = ''n1'', news_title = ''A'', news_content = ''a'', news_date = ''2024-05-03'', news_image = ''a.jpg''\<rparr>),
      (2, \<lparr>news_id = ''n2'', news_title = ''B'', news_content = ''b'', news_date = ''2023-11-20'', news_image = ''b.jpg''\<rparr>),
      (3, \<lparr>news_id = ''n3'', news_title = ''C'', news_content = ''c'', news_date = ''2024-03-15'', news_image = ''c.jpg''\<rparr>)]"

text \<open>The JavaScript values the year and month queries return, as the pages use them:
  \<open>null\<close> or a string of four digits (a year) and of two digits from \<open>01\<close> to \<open>12\<close> (a month).\<close>

definition year_text :: "string option \<Rightarrow> bool" where
  "year_text v = (case v of None \<Rightarrow> True | Some y \<Rightarrow> length y = 4 \<and> list_all is_digit y)"

definition month_text :: "string option \<Rightarrow> bool" where
  "month_text v =
     (case v of None \<Rightarrow> True | Some m \<Rightarrow> length m = 2 \<and> list_all is_digit m \<and> ''01'' \<le> m \<and> m \<le> ''12'')"

lemmas news_eval = getAllNews_def select_all_def news_fixture_def strftime_Y_def strftime_m_def
  valid_date_def is_digit_def order_by_date_desc_def sql_distinct_def

section \<open>Lemmas\<close>

lemma set_sql_distinct [simp]: "set (sql_distinct xs) = set xs"
  by (simp add: sql_distinct_def)

lemma distinct_sql_distinct [simp]: "distinct (sql_distinct xs)"
  by (simp add: sql_distinct_def)

lemma mset_order_by_date_desc [simp]: "mset (order_by_date_desc xs) = mset xs"
  by (simp add: order_by_date_desc_def)

lemma set_order_by_date_desc [simp]: "set (order_by_date_desc xs) = set xs"
  by (simp add: order_by_date_desc_def)

lemma length_order_by_date_desc [simp]: "length (order_by_date_desc xs) = length xs"
  by (simp add: order_by_date_desc_def)

lemma sorted_order_by_date_desc:
  "sorted_wrt (\<ge>) (map news_date (order_by_date_desc xs))"
proof -
  have "sorted (map news_date (sort_key news_date (rev xs)))" by simp
  then show ?thesis by (simp add: order_by_date_desc_def rev_map [symmetric] sorted_wrt_rev)
qed

lemma filter_order_by_date_desc:
  "filter P (order_by_date_desc xs) = order_by_date_desc (filter P xs)"
  by (simp add: order_by_date_desc_def rev_filter [symmetric] filter_sort)

lemma order_by_date_desc_empty_iff [simp]: "order_by_date_desc xs = [] \<longleftrightarrow> xs = []"
  by (metis length_0_conv length_order_by_date_desc)

lemma strftime_m_Some: "strftime_Y d = Some y \<Longrightarrow> \<exists>m. strftime_m d = Some m"
  by (simp add: strftime_Y_def strftime_m_def split: if_splits)

lemma strftime_Y_Some: "strftime_m d = Some m \<Longrightarrow> \<exists>y. strftime_Y d = Some y"
  by (simp add: strftime_Y_def strftime_m_def split: if_splits)

lemma mem_getAvailableNewsYears:
  "v \<in> set (getAvailableNewsYears db) \<longleftrightarrow> (\<exists>n \<in> set (getAllNews db). strftime_Y (news_date n) = v)"
  by (auto simp: getAvailableNewsYears_def)

lemma mem_getAvailableNewsMonths:
  "v \<in> set (getAvailableNewsMonths db y) \<longleftrightarrow>
     (\<exists>n \<in> set (getAllNews db). strftime_Y (news_date n) = Some y \<and> strftime_m (news_date n) = v)"
  by (auto simp: getAvailableNewsMonths_def)

lemma getNewsForYear_empty_iff:
  "getNewsForYear db y = [] \<longleftrightarrow> (\<forall>n \<in> set (getAllNews db). strftime_Y (news_date n) \<noteq> Some y)"
  by (simp add: getNewsForYear_def filter_empty_conv)

lemma getNewsForYearAndMonth_empty_iff:
  "getNewsForYearAndMonth db y m = [] \<longleftrightarrow>
     (\<forall>n \<in> set (getAllNews db). \<not> (strftime_Y (news_date n) = Some y \<and> strftime_m (news_date n) = Some m))"
  by (simp add: getNewsForYearAndMonth_def filter_empty_conv)

lemma sorted_desc_take_drop:
  assumes "sorted_wrt (\<ge>) (map news_date xs)" "a \<in> set (take k xs)" "b \<in> set (drop k xs)"
  shows "news_date b \<le> news_date a"
proof -
  from assms(1) have "sorted_wrt (\<lambda>x y. news_date y \<le> news_date x) (take k xs @ drop k xs)"
    by (simp add: sorted_wrt_map)
  then have "\<forall>x \<in> set (take k xs). \<forall>y \<in> set (drop k xs). news_date y \<le> news_date x"
    unfolding sorted_wrt_append by blast
  with assms(2,3) show ?thesis by blast
qed

lemma years_iff_news:
  "Some y \<in> set (getAvailableNewsYears db) \<longleftrightarrow> getNewsForYear db y \<noteq> []"
  by (auto simp: mem_getAvailableNewsYears getNewsForYear_empty_iff)

lemma months_iff_news:
  "Some m \<in> set (getAvailableNewsMonths db y) \<longleftrightarrow> getNewsForYearAndMonth db y m \<noteq> []"
  by (auto simp: mem_getAvailableNewsMonths getNewsForYearAndMonth_empty_iff)

lemma take_4_nth: "4 \<le> length d \<Longrightarrow> take 4 d = [d ! 0, d ! 1, d ! 2, d ! 3]"
  by (rule nth_equalityI) (auto simp: eval_nat_numeral less_Suc_eq nth_Cons')

lemma take_2_drop_5_nth: "7 \<le> length d \<Longrightarrow> take 2 (drop 5 d) = [d ! 5, d ! 6]"
  by (rule nth_equalityI) (auto simp: eval_nat_numeral less_Suc_eq nth_Cons')

lemma strftime_Y_text: "strftime_Y d = Some y \<Longrightarrow> length y = 4 \<and> list_all is_digit y"
  by (auto simp: strftime_Y_def valid_date_def take_4_nth split: if_splits)

lemma strftime_m_text:
  "strftime_m d = Some m \<Longrightarrow> length m = 2 \<and> list_all is_digit m \<and> ''01'' \<le> m \<and> m \<le> ''12''"
  by (auto simp: strftime_m_def valid_date_def take_2_drop_5_nth split: if_splits)

lemma strftime_m_length: "strftime_m d = Some m \<Longrightarrow> length m = 2"
  by (simp add: strftime_m_text)

lemma strftime_Y_length: "strftime_Y d = Some y \<Longrightarrow> length y = 4"
  by (simp add: strftime_Y_text)

lemma year_text_strftime_Y [simp]: "year_text (strftime_Y d)"
  by (cases "strftime_Y d") (simp_all add: year_text_def strftime_Y_text)

lemma month_text_strftime_m [simp]: "month_text (strftime_m d)"
  by (cases "strftime_m d") (simp_all add: month_text_def strftime_m_text)

lemma strftime_Y_None_iff: "strftime_Y d = None \<longleftrightarrow> \<not> valid_date d"
  by (simp add: strftime_Y_def)

section \<open>Properties\<close>

text \<open>C15. \<open>getNewsForYear\<close> returns exactly the articles of that year (as a multiset) in
  descending date order.\<close>

theorem getNewsForYear_correct:
  "sorted_wrt (\<ge>) (map news_date (getNewsForYear db y)) \<and>
   mset (getNewsForYear db y) = mset (filter (\<lambda>n. strftime_Y (news_date n) = Some y) (getAllNews db))"
  by (simp add: getNewsForYear_def sorted_order_by_date_desc)

text \<open>The month query refines the year query: the articles of a year and month are
  the articles of that year, in the same order, whose month matches.\<close>

theorem getNewsForYearAndMonth_filter_year:
  "getNewsForYearAndMonth db y m = filter (\<lambda>n. strftime_m (news_date n) = Some m) (getNewsForYear db y)"
  by (simp add: getNewsForYearAndMonth_def getNewsForYear_def filter_order_by_date_desc conj_commute)

text \<open>C18. \<open>getLatestNews\<close> returns at most three articles, all of the table's if it has
  fewer, and no article left out is newer than one returned.\<close>

theorem getLatestNews_top3:
  "length (getLatestNews db) = min 3 (length db) \<and>
   (\<forall>n \<in> set (getLatestNews db). \<forall>n' \<in> set (getAllNews db) - set (getLatestNews db). news_date n' \<le> news_date n)"
proof -
  let ?s = "order_by_date_desc (getAllNews db)"
  have "\<And>n n'. n \<in> set (take 3 ?s) \<Longrightarrow> n' \<in> set ?s - set (take 3 ?s) \<Longrightarrow> news_date n' \<le> news_date n"
  proof -
    fix n n' assume n: "n \<in> set (take 3 ?s)" and n': "n' \<in> set ?s - set (take 3 ?s)"
    from n' have "n' \<in> set (drop 3 ?s)"
      by (metis DiffE Un_iff append_take_drop_id set_append)
    with n show "news_date n' \<le> news_date n"
      using sorted_desc_take_drop [OF sorted_order_by_date_desc] by blast
  qed
  then show ?thesis by (simp add: getLatestNews_def getAllNews_def select_all_def)
qed

theorem getLatestNews_top3_witness:
  "length (getLatestNews news_fixture) = 3 \<and> map news_id (getLatestNews news_fixture) = [''n1'', ''n3'', ''n2'']"
proof -
  have "length (getLatestNews news_fixture) = min 3 (length news_fixture)"
    using getLatestNews_top3 [of news_fixture] by blast
  moreover have "map news_id (getLatestNews news_fixture) = [''n1'', ''n3'', ''n2'']"
    by (simp add: getLatestNews_def news_eval)
  ultimately show ?thesis by (simp add: news_fixture_def)
qed

text \<open>C16. Year links and year pages agree: a year is among \<open>getAvailableNewsYears\<close>
  (each listed once) exactly when \<open>getNewsForYear\<close> for it is non-empty.\<close>

theorem available_years_roundtrip:
  "distinct (getAvailableNewsYears db) \<and>
   (Some y \<in> set (getAvailableNewsYears db) \<longleftrightarrow> getNewsForYear db y \<noteq> [])"
proof
  show "distinct (getAvailableNewsYears db)" by (simp add: getAvailableNewsYears_def)
  show "Some y \<in> set (getAvailableNewsYears db) \<longleftrightarrow> getNewsForYear db y \<noteq> []"
    by (rule years_iff_news)
qed

text \<open>Month links and month pages agree: a month is among
  \<open>getAvailableNewsMonths\<close> of a year exactly when \<open>getNewsForYearAndMonth\<close> for
  that year and month is non-empty.\<close>

theorem available_months_roundtrip:
  "distinct (getAvailableNewsMonths db y) \<and>
   (Some m \<in> set (getAvailableNewsMonths db y) \<longleftrightarrow> getNewsForYearAndMonth db y m \<noteq> [])"
proof
  show "distinct (getAvailableNewsMonths db y)" by (simp add: getAvailableNewsMonths_def)
  show "Some m \<in> set (getAvailableNewsMonths db y) \<longleftrightarrow> getNewsForYearAndMonth db y m \<noteq> []"
    by (rule months_iff_news)
qed


end
