(* ===== verification/Archive.thy ===== *)
theory Archive
  imports News
begin

text \<open>
  The archive filter page
  (\<open>src/3 Udemy/4-routing-and-page-rendering/app/(content)/archive/@archive/[[...filter]]/page.js\<close>).
  The optional catch-all segment gives \<open>params.filter\<close>: \<open>undefined\<close> at
  \<open>/archive\<close>, the list of segments below it otherwise. \<open>FilterHeader\<close> lists links
  (years, or the months of the selected year) and throws on an unknown year or month;
  \<open>FilteredNews\<close> lists the articles of the selected period. Both are rendered side by
  side in their own \<open>Suspense\<close> boundaries, so the page is the pair of their results.
\<close>

datatype archive_error = InvalidFilter "string option" "string option"

text \<open>\<open>${link}\<close> for a link that is a string or \<open>null\<close> (a year of a row whose
  date \<open>strftime\<close> cannot read).\<close>

definition js_null_str :: "string option \<Rightarrow> string" where
  "js_null_str v = (case v of None \<Rightarrow> ''null'' | Some s \<Rightarrow> s)"

definition archive_href :: "string option \<Rightarrow> string option \<Rightarrow> string" where
  "archive_href year link =
     (case year of
        Some y \<Rightarrow> if y \<noteq> [] then ''/archive/'' @ y @ ''/'' @ js_null_str link else ''/archive/'' @ js_null_str link
      | None \<Rightarrow> ''/archive/'' @ js_null_str link)"

text \<open>\<open>getAvailableNewsMonths(year)\<close> as the header calls it; the page never passes a
  month without a year, so the \<open>undefined\<close> case is not reached from it.\<close>

definition months_of :: "news_db \<Rightarrow> string option \<Rightarrow> string option list" where
  "months_of db year = (case year of None \<Rightarrow> [] | Some y \<Rightarrow> getAvailableNewsMonths db y)"

definition FilterHeader ::
  "news_db \<Rightarrow> string option \<Rightarrow> string option \<Rightarrow> archive_error + (string \<times> string option) list" where
  "FilterHeader db year month =
     (let availableYears = getAvailableNewsYears db;
          links = (if js_truthy year \<and> \<not> js_truthy month then months_of db year else availableYears);
          links = (if js_truthy year \<and> js_truthy month then [] else links)
      in if (js_truthy year \<and> year \<notin> set availableYears) \<or>
            (js_truthy month \<and> month \<notin> set (months_of db year))
         then Inl (InvalidFilter year month)
         else Inr (map (\<lambda>link. (archive_href year link, link)) links))"

datatype news_content = NoNewsForPeriod | NewsList "news_item list"

definition FilteredNews :: "news_db \<Rightarrow> string option \<Rightarrow> string option \<Rightarrow> news_content" where
  "FilteredNews db year month =
     (let news = (case (year, month) of
                    (Some y, m) \<Rightarrow>
                      if js_truthy year \<and> \<not> js_truthy m then Some (getNewsForYear db y)
                      else (case m of Some mm \<Rightarrow> if js_truthy year \<and> js_truthy m
                                                 then Some (getNewsForYearAndMonth db y mm) else None
                                    | None \<Rightarrow> None)
                  | (None, _) \<Rightarrow> None)
      in case news of Some ns \<Rightarrow> if ns \<noteq> [] then NewsList ns else NoNewsForPeriod
                    | None \<Rightarrow> NoNewsForPeriod)"

record archive_page =
  archive_header :: "archive_error + (string \<times> string option) list"
  archive_news :: news_content

text \<open>\<open>FilteredNewsPage({params})\<close>: \<open>filter?.[0]\<close> and \<open>filter?.[1]\<close>
  (\<open>filter_param\<close> is \<open>params.filter\<close>).\<close>

definition FilteredNewsPage :: "news_db \<Rightarrow> string list option \<Rightarrow> archive_page" where
  "FilteredNewsPage db filter_param =
     (let selectedYear = (case filter_param of None \<Rightarrow> None | Some f \<Rightarrow> js_at f 0);
          selectedMonth = (case filter_param of None \<Rightarrow> None | Some f \<Rightarrow> js_at f 1)
      in \<lparr>archive_header = FilterHeader db selectedYear selectedMonth,
          archive_news = FilteredNews db selectedYear selectedMonth\<rparr>)"

text \<open>A table with one article whose date \<open>strftime\<close> cannot read.\<close>

definition news_bad_date :: news_db where
  "news_bad_date =
     [(1, \<lparr>news_id = ''n1'', news_title = ''A'', news_content = ''a'', news_date = ''2024-05-03'', news_image = ''a.jpg''\<rparr>),
      (2, \<lparr>news_id = ''n2'', news_title = ''B'', news_content = ''b'', news_date = ''May 2024'', news_image = ''b.jpg''\<rparr>)]"

section \<open>Lemmas\<close>

lemma FilteredNewsPage_Nil:
  "FilteredNewsPage db None = \<lparr>archive_header = FilterHeader db None None, archive_news = NoNewsForPeriod\<rparr>"
  by (simp add: FilteredNewsPage_def FilteredNews_def)

lemma FilteredNewsPage_year:
  "FilteredNewsPage db (Some [y]) =
     \<lparr>archive_header = FilterHeader db (Some y) None, archive_news = FilteredNews db (Some y) None\<rparr>"
  by (simp add: FilteredNewsPage_def js_at_def Let_def)

lemma FilteredNewsPage_month:
  "FilteredNewsPage db (Some (y # m # rest)) =
     \<lparr>archive_header = FilterHeader db (Some y) (Some m), archive_news = FilteredNews db (Some y) (Some m)\<rparr>"
  by (simp add: FilteredNewsPage_def js_at_def Let_def)

lemma FilterHeader_year:
  "y \<noteq> [] \<Longrightarrow> FilterHeader db (Some y) None =
     (if Some y \<in> set (getAvailableNewsYears db)
      then Inr (map (\<lambda>l. (''/archive/'' @ y @ ''/'' @ js_null_str l, l)) (getAvailableNewsMonths db y))
      else Inl (InvalidFilter (Some y) None))"
  by (simp add: FilterHeader_def months_of_def archive_href_def)

lemma FilterHeader_month:
  "y \<noteq> [] \<Longrightarrow> m \<noteq> [] \<Longrightarrow> FilterHeader db (Some y) (Some m) =
     (if Some y \<in> set (getAvailableNewsYears db) \<and> Some m \<in> set (getAvailableNewsMonths db y)
      then Inr [] else Inl (InvalidFilter (Some y) (Some m)))"
  by (auto simp: FilterHeader_def months_of_def)

lemma FilteredNews_year:
  "y \<noteq> [] \<Longrightarrow> FilteredNews db (Some y) None =
     (if getNewsForYear db y \<noteq> [] then NewsList (getNewsForYear db y) else NoNewsForPeriod)"
  by (simp add: FilteredNews_def)

lemma FilteredNews_month:
  "y \<noteq> [] \<Longrightarrow> m \<noteq> [] \<Longrightarrow> FilteredNews db (Some y) (Some m) =
     (if getNewsForYearAndMonth db y m \<noteq> [] then NewsList (getNewsForYearAndMonth db y m) else NoNewsForPeriod)"
  by (simp add: FilteredNews_def)

lemma month_news_year:
  "getNewsForYearAndMonth db y m \<noteq> [] \<Longrightarrow> Some y \<in> set (getAvailableNewsYears db)"
  by (auto simp: getNewsForYearAndMonth_empty_iff mem_getAvailableNewsYears)

lemma FilterHeader_root:
  "FilterHeader db None None = Inr (map (\<lambda>l. (''/archive/'' @ js_null_str l, l)) (getAvailableNewsYears db))"
  by (simp add: FilterHeader_def archive_href_def)

lemma month_page_valid_iff:
  "Some y \<in> set (getAvailableNewsYears db) \<and> Some m \<in> set (getAvailableNewsMonths db y) \<longleftrightarrow>
   getNewsForYearAndMonth db y m \<noteq> []"
  using month_news_year months_iff_news by blast

lemma months_nonempty: "Some m \<in> set (getAvailableNewsMonths db y) \<Longrightarrow> m \<noteq> []"
  by (auto simp: mem_getAvailableNewsMonths dest: strftime_m_length)

lemma months_Some: "l \<in> set (getAvailableNewsMonths db y) \<Longrightarrow> \<exists>m. l = Some m"
  by (auto simp: mem_getAvailableNewsMonths dest: strftime_m_Some)

section \<open>Properties\<close>

text \<open>C19. A year page \<open>/archive/Y\<close>: the header throws exactly when the year has no
  article; otherwise it links the months of the year and the page lists the year's
  articles.\<close>

theorem archive_year_page:
  assumes "y \<noteq> []"
  shows "FilteredNewsPage db (Some [y]) =
           (if getNewsForYear db y = [] then \<lparr>archive_header = Inl (InvalidFilter (Some y) None), archive_news = NoNewsForPeriod\<rparr>
            else \<lparr>archive_header = Inr (map (\<lambda>l. (''/archive/'' @ y @ ''/'' @ js_null_str l, l)) (getAvailableNewsMonths db y)),
                  archive_news = NewsList (getNewsForYear db y)\<rparr>)"
  using assms by (simp add: FilteredNewsPage_year FilterHeader_year FilteredNews_year years_iff_news)

theorem archive_year_page_witness:
  "FilteredNewsPage news_fixture (Some [''2023'']) =
     \<lparr>archive_header = Inr [(''/archive/2023/11'', Some ''11'')],
      archive_news = NewsList (getNewsForYear news_fixture ''2023'')\<rparr>"
proof -
  have h: "''2023'' \<noteq> []" by simp
  have "getNewsForYear news_fixture ''2023'' \<noteq> []"
    by (simp add: getNewsForYear_def getAllNews_def news_eval)
  moreover have "getAvailableNewsMonths news_fixture ''2023'' = [Some ''11'']"
    by (simp add: getAvailableNewsMonths_def getAllNews_def news_eval)
  ultimately show ?thesis using archive_year_page [OF h, of news_fixture] by (simp add: js_null_str_def)
qed

text \<open>C20. A month page \<open>/archive/Y/M\<close>: the header throws exactly when the year has
  no article in that month; otherwise it shows no links and the page lists the articles
  of that year and month.\<close>

theorem archive_month_page:
  assumes "y \<noteq> []" and "m \<noteq> []"
  shows "FilteredNewsPage db (Some [y, m]) =
           (if getNewsForYearAndMonth db y m = []
            then \<lparr>archive_header = Inl (InvalidFilter (Some y) (Some m)), archive_news = NoNewsForPeriod\<rparr>
            else \<lparr>archive_header = Inr [], archive_news = NewsList (getNewsForYearAndMonth db y m)\<rparr>)"
  using assms by (simp add: FilteredNewsPage_month FilterHeader_month FilteredNews_month month_page_valid_iff)

theorem archive_month_page_witness:
  "FilteredNewsPage news_fixture (Some [''2024'', ''04'']) =
     \<lparr>archive_header = Inl (InvalidFilter (Some ''2024'') (Some ''04'')), archive_news = NoNewsForPeriod\<rparr>"
proof -
  have h1: "''2024'' \<noteq> []" and h2: "''04'' \<noteq> []" by simp_all
  have "getNewsForYearAndMonth news_fixture ''2024'' ''04'' = []"
    by (simp add: getNewsForYearAndMonth_def getAllNews_def news_eval)
  then show ?thesis using archive_month_page [OF h1 h2, of news_fixture] by simp
qed

text \<open>C21. Navigation is closed on year pages: every link the header of a valid year
  page shows is \<open>/archive/Y/M\<close> for a month \<open>M\<close> whose page is valid and lists
  at least one article.\<close>

theorem archive_year_links_valid:
  assumes "y \<noteq> []" and "archive_header (FilteredNewsPage db (Some [y])) = Inr ls" and "(href, l) \<in> set ls"
  shows "\<exists>m. l = Some m \<and> href = ''/archive/'' @ y @ ''/'' @ m \<and>
             archive_header (FilteredNewsPage db (Some [y, m])) = Inr [] \<and>
             archive_news (FilteredNewsPage db (Some [y, m])) = NewsList (getNewsForYearAndMonth db y m) \<and>
             getNewsForYearAndMonth db y m \<noteq> []"
proof -
  from assms(1,2) have valid: "Some y \<in> set (getAvailableNewsYears db)"
    and ls: "ls = map (\<lambda>l. (''/archive/'' @ y @ ''/'' @ js_null_str l, l)) (getAvailableNewsMonths db y)"
    by (simp_all add: FilteredNewsPage_year FilterHeader_year split: if_splits)
  from assms(3) ls have l: "l \<in> set (getAvailableNewsMonths db y)"
    and href: "href = ''/archive/'' @ y @ ''/'' @ js_null_str l" by auto
  from l obtain m where m: "l = Some m" using months_Some by blast
  with l have mne: "m \<noteq> []" by (simp add: months_nonempty)
  from l m have news: "getNewsForYearAndMonth db y m \<noteq> []" by (simp add: months_iff_news)
  show ?thesis
    using assms(1) m mne news href valid l
    by (simp add: FilteredNewsPage_month FilterHeader_month FilteredNews_month month_page_valid_iff js_null_str_def)
qed

theorem archive_year_links_valid_witness:
  "archive_header (FilteredNewsPage news_fixture (Some [''2023'', ''11''])) = Inr [] \<and>
   getNewsForYearAndMonth news_fixture ''2023'' ''11'' \<noteq> []"
proof -
  have h1: "''2023'' \<noteq> []" by simp
  have h2: "archive_header (FilteredNewsPage news_fixture (Some [''2023''])) = Inr [(''/archive/2023/11'', Some ''11'')]"
  proof -
    have "getNewsForYear news_fixture ''2023'' \<noteq> []"
      by (simp add: getNewsForYear_def getAllNews_def news_eval)
    moreover have "getAvailableNewsMonths news_fixture ''2023'' = [Some ''11'']"
      by (simp add: getAvailableNewsMonths_def getAllNews_def news_eval)
    ultimately show ?thesis
      by (simp add: FilteredNewsPage_year FilterHeader_year years_iff_news js_null_str_def)
  qed
  have h3: "(''/archive/2023/11'', Some ''11'') \<in> set [(''/archive/2023/11'', Some ''11'')]" by simp
  show ?thesis using archive_year_links_valid [OF h1 h2 h3] by auto
qed

text \<open>C22. The root \<open>/archive\<close> never throws and links every year of the table; when
  every stored date is a \<open>YYYY-MM-DD\<close> date, each link is \<open>/archive/Y\<close> for a year
  whose page is valid and lists its articles.\<close>

theorem archive_root_links_valid:
  assumes "\<forall>n \<in> set (getAllNews db). valid_date (news_date n)"
    and "(href, l) \<in> set (projr (archive_header (FilteredNewsPage db None)))"
  shows "archive_header (FilteredNewsPage db None) = Inr (map (\<lambda>l. (''/archive/'' @ js_null_str l, l)) (getAvailableNewsYears db)) \<and>
         (\<exists>y. l = Some y \<and> href = ''/archive/'' @ y \<and>
              archive_header (FilteredNewsPage db (Some [y])) =
                Inr (map (\<lambda>l. (''/archive/'' @ y @ ''/'' @ js_null_str l, l)) (getAvailableNewsMonths db y)) \<and>
              archive_news (FilteredNewsPage db (Some [y])) = NewsList (getNewsForYear db y))"
proof -
  have root: "archive_header (FilteredNewsPage db None) = Inr (map (\<lambda>l. (''/archive/'' @ js_null_str l, l)) (getAvailableNewsYears db))"
    by (simp add: FilteredNewsPage_Nil FilterHeader_root)
  with assms(2) have l: "l \<in> set (getAvailableNewsYears db)" and href: "href = ''/archive/'' @ js_null_str l"
    by auto
  from l obtain n where n: "n \<in> set (getAllNews db)" "strftime_Y (news_date n) = l"
    by (auto simp: mem_getAvailableNewsYears)
  with assms(1) obtain y where y: "l = Some y" by (auto simp: strftime_Y_def)
  with n have yne: "y \<noteq> []" by (auto dest: strftime_Y_length)
  from l y have news: "getNewsForYear db y \<noteq> []" by (simp add: years_iff_news)
  show ?thesis
    using root y yne news href l
    by (simp add: FilteredNewsPage_year FilterHeader_year FilteredNews_year js_null_str_def)
qed

theorem archive_root_links_valid_witness:
  "archive_news (FilteredNewsPage news_fixture (Some [''2024''])) = NewsList (getNewsForYear news_fixture ''2024'')"
proof -
  have h1: "\<forall>n \<in> set (getAllNews news_fixture). valid_date (news_date n)"
    by (simp add: getAllNews_def news_eval)
  have "getAvailableNewsYears news_fixture = [Some ''2024'', Some ''2023'']"
    by (simp add: getAvailableNewsYears_def getAllNews_def news_eval)
  then have h2: "(''/archive/2024'', Some ''2024'') \<in> set (projr (archive_header (FilteredNewsPage news_fixture None)))"
    by (simp add: FilteredNewsPage_Nil FilterHeader_root js_null_str_def)
  show ?thesis using archive_root_links_valid [OF h1 h2] by auto
qed


text \<open>Segments past the month are ignored: \<open>/archive/Y/M/anything\<close> renders exactly
  as \<open>/archive/Y/M\<close>.\<close>

theorem archive_ignores_extra_segments:
  "FilteredNewsPage db (Some (y # m # rest)) = FilteredNewsPage db (Some [y, m])"
  by (simp add: FilteredNewsPage_month)

end
