(* ===== verification/NewsPages.thy ===== *)
theory NewsPages
  imports News
begin

text \<open>
  The article pages of the routing example:
  \<open>news/[id]/page.js\<close> (\<open>NewsDetailPage\<close>, from the table through
  \<open>getNewsItem\<close>), \<open>news/[id]/image/page.js\<close> (\<open>ImagePage\<close>, shown on a full load
  of the image URL, which still searches the static \<open>DUMMY_NEWS\<close> array) and
  \<open>news/[id]/@modal/(.)image/page.js\<close> (\<open>InterceptedImagePage\<close>, the modal shown
  when the image link is followed inside the app, from the table). \<open>notFound()\<close>
  throws and renders the not-found page, here the value \<open>NotFound\<close>. \<open>DUMMY_NEWS\<close>
  lives in \<open>dummy-news.js\<close>, which is not among the sources: it is a parameter.
\<close>

record article_view =
  image_link :: string
  image_src :: string
  image_alt :: string
  heading :: string
  time_text :: string
  body :: string

datatype detail_page = DetailNotFound | Article article_view

datatype image_page = ImageNotFound | FullscreenImage string string | ImageModal string string

definition news_image_src :: "news_item \<Rightarrow> string" where
  "news_image_src n = ''/images/news/'' @ news_image n"

definition NewsDetailPage :: "news_db \<Rightarrow> string \<Rightarrow> detail_page" where
  "NewsDetailPage db newsId =
     (case getNewsItem db newsId of
        None \<Rightarrow> DetailNotFound
      | Some newsItem \<Rightarrow>
          Article \<lparr>image_link = ''/news/'' @ news_id newsItem @ ''/image'', image_src = news_image_src newsItem,
                   image_alt = news_title newsItem, heading = news_title newsItem,
                   time_text = news_date newsItem, body = news_content newsItem\<rparr>)"

definition ImagePage :: "news_item list \<Rightarrow> string \<Rightarrow> image_page" where
  "ImagePage DUMMY_NEWS newsId =
     (case find (\<lambda>news. news_id news = newsId) DUMMY_NEWS of
        None \<Rightarrow> ImageNotFound
      | Some newsItem \<Rightarrow> FullscreenImage (news_image_src newsItem) (news_title newsItem))"

definition InterceptedImagePage :: "news_db \<Rightarrow> string \<Rightarrow> image_page" where
  "InterceptedImagePage db newsId =
     (case getNewsItem db newsId of
        None \<Rightarrow> ImageNotFound
      | Some newsItem \<Rightarrow> ImageModal (news_image_src newsItem) (news_title newsItem))"

section \<open>Lemmas\<close>

lemma getNewsItem_find: "getNewsItem db i = find (\<lambda>n. news_id n = i) (getAllNews db)"
  by (induction db) (auto simp: getNewsItem_def select_first_def getAllNews_def select_all_def)

lemma getNewsItem_Some: "getNewsItem db i = Some n \<Longrightarrow> news_id n = i \<and> n \<in> set (getAllNews db)"
  by (auto simp: getNewsItem_find find_Some_iff)

lemma getNewsItem_None: "getNewsItem db i = None \<longleftrightarrow> (\<forall>n \<in> set (getAllNews db). news_id n \<noteq> i)"
  by (auto simp: getNewsItem_find find_None_iff)

section \<open>Properties\<close>

text \<open>The detail page of an id shows the not-found page exactly when no stored
  article has that id; otherwise it shows an article with that id, and its image link is
  \<open>/news/ID/image\<close>, where the in-app modal shows the same article's image.\<close>

theorem detail_page_image_link:
  "(NewsDetailPage db i = DetailNotFound \<longleftrightarrow> (\<forall>n \<in> set (getAllNews db). news_id n \<noteq> i)) \<and>
   (\<forall>v. NewsDetailPage db i = Article v \<longrightarrow>
      image_link v = ''/news/'' @ i @ ''/image'' \<and> InterceptedImagePage db i = ImageModal (image_src v) (image_alt v))"
proof (cases "getNewsItem db i")
  case None
  moreover from None have "\<forall>n \<in> set (getAllNews db). news_id n \<noteq> i"
    by (simp only: getNewsItem_None)
  ultimately show ?thesis by (simp add: NewsDetailPage_def)
next
  case (Some n)
  moreover from Some have "news_id n = i" and "n \<in> set (getAllNews db)"
    by (simp_all add: getNewsItem_Some)
  ultimately show ?thesis by (auto simp: NewsDetailPage_def InterceptedImagePage_def)
qed

theorem detail_page_image_link_witness:
  "NewsDetailPage news_fixture ''n9'' = DetailNotFound \<and>
   InterceptedImagePage news_fixture ''n1'' = ImageModal ''/images/news/a.jpg'' ''A''"
proof -
  have "\<forall>n \<in> set (getAllNews news_fixture). news_id n \<noteq> ''n9''"
    by (simp add: getAllNews_def news_eval)
  moreover have "NewsDetailPage news_fixture ''n1'' =
     Article \<lparr>image_link = ''/news/n1/image'', image_src = ''/images/news/a.jpg'', image_alt = ''A'', heading = ''A'',
              time_text = ''2024-05-03'', body = ''a''\<rparr>"
    by (simp add: NewsDetailPage_def getNewsItem_find getAllNews_def news_eval news_image_src_def)
  ultimately show ?thesis using detail_page_image_link [of news_fixture "''n9''"] detail_page_image_link [of news_fixture "''n1''"]
    by auto
qed

text \<open>C24. The two image routes disagree: for an article stored in the table but absent
  from \<open>DUMMY_NEWS\<close>, the image opened from the article page shows in the modal, while
  reloading the same URL (\<open>ImagePage\<close>) gives the not-found page.\<close>

theorem image_routes_disagree:
  assumes "getNewsItem db i = Some n" and "\<forall>d \<in> set DUMMY_NEWS. news_id d \<noteq> i"
  shows "InterceptedImagePage db i = ImageModal (news_image_src n) (news_title n) \<and> ImagePage DUMMY_NEWS i = ImageNotFound"
proof -
  from assms(2) have "find (\<lambda>news. news_id news = i) DUMMY_NEWS = None"
    by (auto simp: find_None_iff)
  with assms(1) show ?thesis by (simp add: InterceptedImagePage_def ImagePage_def)
qed

theorem image_routes_disagree_witness:
  "InterceptedImagePage news_fixture ''n1'' = ImageModal ''/images/news/a.jpg'' ''A'' \<and>
   ImagePage [] ''n1'' = ImageNotFound"
proof -
  have h1: "getNewsItem news_fixture ''n1'' =
     Some \<lparr>news_id = ''n1'', news_title = ''A'', news_content = ''a'', news_date = ''2024-05-03'', news_image = ''a.jpg''\<rparr>"
    by (simp add: getNewsItem_find getAllNews_def news_eval)
  have h2: "\<forall>d \<in> set ([] :: news_item list). news_id d \<noteq> ''n1''" by simp
  show ?thesis using image_routes_disagree [OF h1 h2] by (simp add: news_image_src_def)
qed

end
