(* ===== verification/Meals.thy ===== *)
theory Meals
  imports Store
begin

text \<open>
  The meals data access (\<open>src/3 Udemy/3-foodies-udemy/lib/meals.js\<close>) and the meals
  page (\<open>src/3-foodies-udemy/app/meals/page.js\<close>). \<open>slugify\<close> and \<open>xss\<close> are
  libraries: they are parameters of \<open>saveMeal\<close>. The file system is a map from paths to
  contents. \<open>saveMeal\<close> opens a write stream on \<open>public/images/<fileName>\<close>
  (creating or truncating the file) and then calls \<open>stream.write(...)\<close>, where
  \<open>stream\<close> is the imported Node module, whose \<open>write\<close> property is undefined: the
  call throws a \<open>TypeError\<close>, so the insert after it is never reached.
\<close>

record meal =
  meal_slug :: string
  meal_title :: string
  meal_image :: string
  meal_summary :: string
  meal_instructions :: string
  meal_creator :: string
  meal_creator_email :: string

text \<open>The form data \<open>saveMeal\<close> receives; \<open>image\<close> is a \<open>File\<close> with a name and its
  bytes.\<close>

record meal_input =
  in_title :: string
  in_summary :: string
  in_instructions :: string
  in_creator :: string
  in_creator_email :: string
  in_image_name :: string
  in_image_bytes :: string

record meals_state =
  meals_tbl :: "meal table"
  files :: "string \<rightharpoonup> string"

datatype save_error = TypeError string

definition getAllMeals :: "meals_state \<Rightarrow> meal list" where
  "getAllMeals st = map snd (select_all (meals_tbl st))"

definition getMeal :: "meals_state \<Rightarrow> string \<Rightarrow> meal option" where
  "getMeal st slug = map_option snd (select_first (\<lambda>(_, m). meal_slug m = slug) (meals_tbl st))"

text \<open>The \<open>write\<close> property of the Node \<open>stream\<close> module: there is none.\<close>

definition stream_module_write :: "(string \<Rightarrow> unit) option" where
  "stream_module_write = None"

definition meal_extension :: "string \<Rightarrow> string" where
  "meal_extension name = (case js_pop (js_split ''.'' name) of Some e \<Rightarrow> e | None \<Rightarrow> ''undefined'')"

definition saveMeal ::
  "(string \<Rightarrow> string) \<Rightarrow> (string \<Rightarrow> string) \<Rightarrow> meal_input \<Rightarrow> meals_state \<Rightarrow> (save_error + unit) \<times> meals_state" where
  "saveMeal slugify xss m st =
     (let slug = slugify (in_title m);
          instructions = xss (in_instructions m);
          extension = meal_extension (in_image_name m);
          fileName = slug @ ''.'' @ extension;
          path = ''public/images/'' @ fileName;
          st = st\<lparr>files := (files st)(path \<mapsto> [])\<rparr>
      in case stream_module_write of
           None \<Rightarrow> (Inl (TypeError ''stream.write is not a function''), st)
         | Some _ \<Rightarrow>
             (let row = \<lparr>meal_slug = slug, meal_title = in_title m, meal_image = ''/images/'' @ fileName,
                         meal_summary = in_summary m, meal_instructions = instructions,
                         meal_creator = in_creator m, meal_creator_email = in_creator_email m\<rparr>
              in (Inr (), st\<lparr>meals_tbl := snd (insert_row row (meals_tbl st))\<rparr>)))"

text \<open>One render of \<open>/meals\<close>: \<open>MealsPage\<close> awaits \<open>getAllMeals()\<close> and drops the
  result, then its child \<open>Meals\<close> awaits \<open>getAllMeals()\<close> again and renders the grid.
  The second component counts the queries (\<open>getAllMeals\<close> is not wrapped in
  \<open>cache\<close>).\<close>

datatype meals_view = MealsGrid "meal list"

definition render_meals :: "meals_state \<Rightarrow> meals_view \<times> nat" where
  "render_meals st =
     (let meals = getAllMeals st;
          queries = 1;
          meals' = getAllMeals st;
          queries = queries + 1
      in (MealsGrid meals', queries))"

definition meal_fixture_input :: meal_input where
  "meal_fixture_input = \<lparr>in_title = ''Juicy Burger'', in_summary = ''s'', in_instructions = ''cook'',
     in_creator = ''Max'', in_creator_email = ''max@example.com'', in_image_name = ''burger.photo.jpg'',
     in_image_bytes = ''xyz''\<rparr>"

section \<open>Lemmas\<close>

lemma saveMeal_eq:
  "saveMeal slugify xss m st =
     (Inl (TypeError ''stream.write is not a function''),
      st\<lparr>files := (files st)(''public/images/'' @ slugify (in_title m) @ ''.'' @ meal_extension (in_image_name m) \<mapsto> [])\<rparr>)"
  by (simp add: saveMeal_def stream_module_write_def Let_def)

lemma meal_extension_last:
  "meal_extension name = last (js_split ''.'' name)"
  by (simp add: meal_extension_def js_pop_js_split)

lemma render_meals_eq: "render_meals st = (MealsGrid (getAllMeals st), 2)"
  by (simp add: render_meals_def)

section \<open>Properties\<close>

text \<open>C25. \<open>saveMeal\<close> never stores a meal: for every input it rejects with the
  \<open>TypeError\<close> of \<open>stream.write\<close>, the meals table, \<open>getAllMeals\<close> and
  \<open>getMeal\<close> are unchanged, and the only effect left behind is the image file
  \<open>public/images/<slug>.<extension>\<close> opened by \<open>createWriteStream\<close>, empty
  (an image already stored under that name is truncated).\<close>

theorem saveMeal_never_stores:
  "fst (saveMeal slugify xss m st) = Inl (TypeError ''stream.write is not a function'') \<and>
   meals_tbl (snd (saveMeal slugify xss m st)) = meals_tbl st \<and>
   getAllMeals (snd (saveMeal slugify xss m st)) = getAllMeals st \<and>
   getMeal (snd (saveMeal slugify xss m st)) s = getMeal st s \<and>
   files (snd (saveMeal slugify xss m st))
     (''public/images/'' @ slugify (in_title m) @ ''.'' @ meal_extension (in_image_name m)) = Some []"
  by (simp add: saveMeal_eq getAllMeals_def getMeal_def)

text \<open>The extension of the stored image is the part of the file name after its last
  dot; a name without a dot is its own extension.\<close>

theorem meal_extension_after_last_dot:
  "(CHR ''.'' \<notin> set e \<longrightarrow> meal_extension (n @ ''.'' @ e) = e) \<and>
   (CHR ''.'' \<notin> set name \<longrightarrow> meal_extension name = name)"
  by (simp add: meal_extension_last js_split_single_last js_split_single_none)

theorem meal_extension_after_last_dot_witness:
  "meal_extension ''burger.photo.jpg'' = ''jpg'' \<and> meal_extension ''burger'' = ''burger''"
proof -
  have "meal_extension (''burger.photo'' @ ''.'' @ ''jpg'') = ''jpg''"
    using meal_extension_after_last_dot [of "''jpg''" "''burger.photo''" "''burger''"] by simp
  moreover have "meal_extension ''burger'' = ''burger''"
    using meal_extension_after_last_dot [of "''jpg''" "''burger.photo''" "''burger''"] by simp
  ultimately show ?thesis by simp
qed

end
