(* ===== verification/ImagePicker.thy ===== *)
theory ImagePicker
  imports Prelude
begin

text \<open>
  The image picker of the meal form (\<open>src/3-foodies-udemy/components/meals/image-picker.js\<close>)
  as a client state machine. The state is the \<open>pickedImage\<close> of \<open>useState\<close>
  (\<open>undefined\<close> at first, \<open>null\<close> after an empty selection: both are \<open>None\<close> here,
  and both render the same text) and the \<open>FileReader\<close>s started by
  \<open>handleImageChange\<close> whose \<open>onload\<close> has not fired yet, each with the data URL it
  will deliver. A reader's load is a separate event: the browser fires it when the read
  completes, in any order relative to later selections. Clicking the button only opens the
  file dialog (\<open>filePicker.click()\<close>); the dialog's result arrives as a change event.
\<close>

record picked_file =
  file_name :: string
  file_data_url :: string

record picker_state =
  pickedImage :: "string option"
  readers :: "(nat \<times> string) list"
  next_reader :: nat

datatype picker_event = PickImage | ImageChange "picked_file list" | ReaderLoad nat

datatype preview = PreviewImage string | NoImagePicked

definition picker_init :: picker_state where
  "picker_init = \<lparr>pickedImage = None, readers = [], next_reader = 0\<rparr>"

definition handlePickImage :: "picker_state \<Rightarrow> picker_state" where
  "handlePickImage st = st"

definition handleImageChange :: "picked_file list \<Rightarrow> picker_state \<Rightarrow> picker_state" where
  "handleImageChange files st =
     (case js_at files 0 of
        None \<Rightarrow> st\<lparr>pickedImage := None\<rparr>
      | Some file \<Rightarrow>
          st\<lparr>readers := readers st @ [(next_reader st, file_data_url file)],
             next_reader := Suc (next_reader st)\<rparr>)"

text \<open>\<open>reader.onload = () => setPickedImage(reader.result)\<close>. A load of a reader that
  is not pending does not happen; the step leaves the state alone.\<close>

definition reader_onload :: "nat \<Rightarrow> picker_state \<Rightarrow> picker_state" where
  "reader_onload r st =
     (case map_of (readers st) r of
        None \<Rightarrow> st
      | Some result \<Rightarrow>
          st\<lparr>pickedImage := Some result, readers := filter (\<lambda>(i, _). i \<noteq> r) (readers st)\<rparr>)"

fun picker_step :: "picker_event \<Rightarrow> picker_state \<Rightarrow> picker_state" where
  "picker_step PickImage st = handlePickImage st"
| "picker_step (ImageChange files) st = handleImageChange files st"
| "picker_step (ReaderLoad r) st = reader_onload r st"

definition picker_run :: "picker_event list \<Rightarrow> picker_state \<Rightarrow> picker_state" where
  "picker_run evs st = fold picker_step evs st"

definition picker_preview :: "picker_state \<Rightarrow> preview" where
  "picker_preview st =
     (if js_truthy (pickedImage st) then PreviewImage (the (pickedImage st)) else NoImagePicked)"

text \<open>The data URLs of the files the user selected in a run, in order.\<close>

definition selected_urls :: "picker_event list \<Rightarrow> string list" where
  "selected_urls evs = concat (map (\<lambda>e. case e of ImageChange fs \<Rightarrow> map file_data_url (take 1 fs) | _ \<Rightarrow> []) evs)"

text \<open>Pending readers have ids below the next id and are listed in order of creation.\<close>

definition picker_wf :: "picker_state \<Rightarrow> bool" where
  "picker_wf st = (sorted_wrt (<) (map fst (readers st)) \<and> list_all (\<lambda>(i, _). i < next_reader st) (readers st))"

section \<open>Lemmas\<close>

lemma picker_run_Nil [simp]: "picker_run [] st = st"
  by (simp add: picker_run_def)

lemma picker_run_Cons [simp]: "picker_run (e # evs) st = picker_run evs (picker_step e st)"
  by (simp add: picker_run_def)

lemma picker_run_append: "picker_run (evs @ evs') st = picker_run evs' (picker_run evs st)"
  by (simp add: picker_run_def)

lemma selected_urls_append [simp]: "selected_urls (evs @ evs') = selected_urls evs @ selected_urls evs'"
  by (simp add: selected_urls_def)

lemma selected_urls_Nil [simp]: "selected_urls [] = []"
  by (simp add: selected_urls_def)

lemma selected_urls_single [simp]:
  "selected_urls [ImageChange fs] = map file_data_url (take 1 fs)"
  "selected_urls [ReaderLoad r] = []" "selected_urls [PickImage] = []"
  by (simp_all add: selected_urls_def)

lemma map_of_readers_in: "map_of rs r = Some u \<Longrightarrow> u \<in> snd ` set rs"
  by (drule map_of_SomeD) (metis image_eqI snd_conv)

text \<open>Every data URL the picker holds, shown or pending, is the URL of a selected file.\<close>

definition picker_holds :: "picker_state \<Rightarrow> string list \<Rightarrow> bool" where
  "picker_holds st us = (set_option (pickedImage st) \<union> snd ` set (readers st) \<subseteq> set us)"

lemma picker_holds_step:
  assumes h: "picker_holds st us"
  shows "picker_holds (picker_step e st) (us @ selected_urls [e])"
proof (cases e)
  case (ImageChange fs)
  then show ?thesis
    using h by (cases fs) (auto simp: picker_holds_def handleImageChange_def js_at_def)
next
  case (ReaderLoad r)
  then show ?thesis
    using h by (auto simp: picker_holds_def reader_onload_def split: option.splits dest: map_of_readers_in)
qed (use h in \<open>simp add: handlePickImage_def\<close>)

lemma picker_holds_run:
  "picker_holds st us \<Longrightarrow> picker_holds (picker_run evs st) (us @ selected_urls evs)"
proof (induction evs arbitrary: st us)
  case Nil
  then show ?case by simp
next
  case (Cons e evs)
  have "picker_holds (picker_step e st) (us @ selected_urls [e])"
    using Cons.prems by (rule picker_holds_step)
  from Cons.IH [OF this] show ?case
    by (simp add: selected_urls_def)
qed

lemma picker_wf_step:
  assumes h: "picker_wf st"
  shows "picker_wf (picker_step e st)"
proof (cases e)
  case (ImageChange fs)
  then show ?thesis using h
    by (auto simp: picker_wf_def handleImageChange_def sorted_wrt_append list_all_iff split: option.splits)
next
  case (ReaderLoad r)
  then show ?thesis using h
    by (auto simp: picker_wf_def reader_onload_def list_all_iff sorted_wrt_map sorted_wrt_filter
        split: option.splits)
qed (use h in \<open>simp add: handlePickImage_def\<close>)

lemma picker_wf_run: "picker_wf st \<Longrightarrow> picker_wf (picker_run evs st)"
  by (induction evs arbitrary: st) (simp_all add: picker_wf_step)

lemma picker_wf_init [simp]: "picker_wf picker_init"
  by (simp add: picker_wf_def picker_init_def)

lemma map_of_fresh: "list_all (\<lambda>(i, _). i < (n::nat)) rs \<Longrightarrow> map_of (rs @ [(n, u)]) n = Some u"
  by (induction rs) (auto simp: map_of_append)

lemma filter_fresh:
  "list_all (\<lambda>(i, _). i < (n::nat)) rs \<Longrightarrow> filter (\<lambda>(i, _). i \<noteq> n) rs = rs"
  by (induction rs) (auto simp: list_all_iff)

lemma picker_holds_init [simp]: "picker_holds picker_init []"
  by (simp add: picker_holds_def picker_init_def)

lemma sorted_wrt_less_distinct: "sorted_wrt (<) (xs :: nat list) \<Longrightarrow> distinct xs"
  by (induction xs) auto

text \<open>Loading the pending readers one by one, oldest first, empties the queue and leaves
  the last one's result shown.\<close>

lemma picker_drain:
  "distinct (map fst rs) \<Longrightarrow> readers st = rs \<Longrightarrow>
   readers (picker_run (map (ReaderLoad \<circ> fst) rs) st) = [] \<and>
   pickedImage (picker_run (map (ReaderLoad \<circ> fst) rs) st) =
     (if rs = [] then pickedImage st else Some (snd (last rs)))"
proof (induction rs arbitrary: st)
  case Nil
  then show ?case by simp
next
  case (Cons r rs)
  obtain i u where r: "r = (i, u)" by fastforce
  with Cons.prems have fresh: "i \<notin> fst ` set rs" and d: "distinct (map fst rs)" by auto
  let ?st = "reader_onload i st"
  have "readers ?st = rs" "pickedImage ?st = Some u"
    using Cons.prems(2) r fresh by (auto simp: reader_onload_def filter_id_conv rev_image_eqI)
  with Cons.IH [OF d] r show ?case by simp
qed

section \<open>Properties\<close>

text \<open>C26. The picker shows only what the user selected: after any sequence of clicks,
  selections and reader loads from the initial state, the picked image is either none or
  the data URL of a file the user selected in that sequence.\<close>

theorem picker_shows_selected:
  "set_option (pickedImage (picker_run evs picker_init)) \<subseteq> set (selected_urls evs)"
  using picker_holds_run [OF picker_holds_init, of evs] by (simp add: picker_holds_def)

text \<open>C27. In any state the picker reaches, selecting a file and then the load of the reader
  that selection started shows that file and leaves the other pending readers as they
  were; a selection with no file clears the picked image at once.\<close>

theorem picker_select_then_load:
  "pickedImage (picker_run [ImageChange (f # fs), ReaderLoad (next_reader (picker_run evs picker_init))]
      (picker_run evs picker_init)) = Some (file_data_url f) \<and>
   readers (picker_run [ImageChange (f # fs), ReaderLoad (next_reader (picker_run evs picker_init))]
      (picker_run evs picker_init)) = readers (picker_run evs picker_init) \<and>
   pickedImage (picker_run [ImageChange []] (picker_run evs picker_init)) = None"
proof -
  have "picker_wf (picker_run evs picker_init)"
    by (rule picker_wf_run) simp
  then have "list_all (\<lambda>(i, _). i < next_reader (picker_run evs picker_init)) (readers (picker_run evs picker_init))"
    by (simp add: picker_wf_def)
  then show ?thesis
    by (simp del: map_of_append add: handleImageChange_def reader_onload_def js_at_def map_of_fresh filter_fresh)
qed


text \<open>C36. The pending reads of the picker always drain: from any state it reaches, when
  the reads still pending complete in the order they were started, the queue empties
  after exactly that many loads, and the picker shows the most recently selected file (or
  what it showed before, when nothing was pending).\<close>

theorem picker_pending_reads_drain:
  "readers (picker_run (map (ReaderLoad \<circ> fst) (readers (picker_run evs picker_init))) (picker_run evs picker_init)) = [] \<and>
   pickedImage (picker_run (map (ReaderLoad \<circ> fst) (readers (picker_run evs picker_init))) (picker_run evs picker_init)) =
     (if readers (picker_run evs picker_init) = [] then pickedImage (picker_run evs picker_init)
      else Some (snd (last (readers (picker_run evs picker_init)))))"
proof -
  have "picker_wf (picker_run evs picker_init)" by (rule picker_wf_run) simp
  then have "distinct (map fst (readers (picker_run evs picker_init)))"
    by (simp add: picker_wf_def sorted_wrt_less_distinct)
  then show ?thesis by (rule picker_drain) simp
qed

end
