(* ===== verification/Users.thy ===== *)
theory Users
  imports Store
begin

text \<open>
  The user accessor of the authentication example (\<open>src/3 Udemy/8-auth/lib/user.js\<close>):
  \<open>createUser\<close> inserts a row and returns its \<open>lastInsertRowid\<close>, \<open>getUserByEmail\<close>
  returns the first row with the email, or \<open>null\<close>. The table's schema is created in
  \<open>lib/db.js\<close>, which is not among the sources; whether \<open>email\<close> is declared
  \<open>UNIQUE\<close> is therefore a parameter \<open>email_unique\<close>: with it, inserting an email
  already present throws SQLite's constraint error, which \<open>createUser\<close> does not catch.
\<close>

record user =
  user_email :: string
  user_password :: string

type_synonym users_db = "user table"

datatype sqlite_error = SQLITE_CONSTRAINT_UNIQUE

definition email_taken :: "users_db \<Rightarrow> string \<Rightarrow> bool" where
  "email_taken db email = (\<exists>(_, u) \<in> set db. user_email u = email)"

definition createUser :: "bool \<Rightarrow> string \<Rightarrow> string \<Rightarrow> users_db \<Rightarrow> (sqlite_error + nat) \<times> users_db" where
  "createUser email_unique email password db =
     (if email_unique \<and> email_taken db email then (Inl SQLITE_CONSTRAINT_UNIQUE, db)
      else (let (rid, db') = insert_row \<lparr>user_email = email, user_password = password\<rparr> db
            in (Inr rid, db')))"

definition getUserByEmail :: "string \<Rightarrow> users_db \<Rightarrow> (nat \<times> user) option" where
  "getUserByEmail email db = select_first (\<lambda>(_, u). user_email u = email) db"

definition users_fixture :: users_db where
  "users_fixture = [(1, \<lparr>user_email = ''a@x.io'', user_password = ''h1''\<rparr>)]"

section \<open>Lemmas\<close>

lemma email_taken_iff: "email_taken db e \<longleftrightarrow> getUserByEmail e db \<noteq> None"
  by (auto simp: email_taken_def getUserByEmail_def select_first_def find_None_iff)

lemma createUser_fresh:
  "\<not> email_taken db e \<Longrightarrow>
   createUser b e p db = (Inr (new_rowid db), db @ [(new_rowid db, \<lparr>user_email = e, user_password = p\<rparr>)])"
  by (simp add: createUser_def insert_row_def Let_def)

lemma getUserByEmail_append_old:
  "getUserByEmail e db = Some r \<Longrightarrow> getUserByEmail e (db @ rs) = Some r"
  by (simp add: getUserByEmail_def select_first_def find_append)

lemma getUserByEmail_append_new:
  "getUserByEmail e db = None \<Longrightarrow> getUserByEmail e (db @ rs) = getUserByEmail e rs"
  by (simp add: getUserByEmail_def select_first_def find_append)

section \<open>Properties\<close>

text \<open>C29. Sign-up then log-in: creating a user whose email is not yet registered succeeds
  with a rowid above every existing one, keeps the table's rowids distinct, and the lookup
  by that email then returns exactly the new row, with either schema.\<close>

theorem createUser_getUserByEmail:
  assumes "wf_table db" and "getUserByEmail e db = None"
  shows "fst (createUser b e p db) = Inr (new_rowid db) \<and>
         list_all (\<lambda>(i, _). i < new_rowid db) db \<and>
         wf_table (snd (createUser b e p db)) \<and>
         getUserByEmail e (snd (createUser b e p db)) = Some (new_rowid db, \<lparr>user_email = e, user_password = p\<rparr>)"
proof -
  have fresh: "\<not> email_taken db e" using assms(2) by (simp add: email_taken_iff)
  have "wf_table (snd (insert_row \<lparr>user_email = e, user_password = p\<rparr> db))"
    using assms(1) by (rule wf_table_insert_row)
  moreover have "list_all (\<lambda>(i, _). i < new_rowid db) db"
    by (auto simp: list_all_iff new_rowid_fresh)
  ultimately show ?thesis
    using assms(2) by (simp add: createUser_fresh [OF fresh] getUserByEmail_append_new)
      (simp add: getUserByEmail_def select_first_def)
qed

theorem createUser_getUserByEmail_witness:
  "fst (createUser True ''b@x.io'' ''h2'' users_fixture) = Inr 2 \<and>
   getUserByEmail ''b@x.io'' (snd (createUser True ''b@x.io'' ''h2'' users_fixture)) =
     Some (2, \<lparr>user_email = ''b@x.io'', user_password = ''h2''\<rparr>)"
proof -
  have "wf_table users_fixture" by (simp add: users_fixture_def wf_table_def)
  moreover have "getUserByEmail ''b@x.io'' users_fixture = None"
    by (simp add: users_fixture_def getUserByEmail_def select_first_def)
  moreover have "new_rowid users_fixture = 2"
    by (simp add: users_fixture_def new_rowid_def)
  ultimately show ?thesis
    using createUser_getUserByEmail [of users_fixture "''b@x.io''" True "''h2''"] by simp
qed

text \<open>C30. \<open>createUser\<close> does not check for an existing email: when the email is
  registered, either the insert throws the uncaught constraint error (unique schema) and
  the table is unchanged, or a second row is stored and the lookup by that email keeps
  returning the first user, so the new password is never found.\<close>

theorem createUser_duplicate_email:
  assumes "getUserByEmail e db = Some r"
  shows "createUser True e p db = (Inl SQLITE_CONSTRAINT_UNIQUE, db) \<and>
         snd (createUser False e p db) = db @ [(new_rowid db, \<lparr>user_email = e, user_password = p\<rparr>)] \<and>
         getUserByEmail e (snd (createUser False e p db)) = Some r"
proof -
  have "email_taken db e" using assms by (simp add: email_taken_iff)
  then show ?thesis
    using assms by (simp add: createUser_def insert_row_def Let_def getUserByEmail_append_old)
qed

theorem createUser_duplicate_email_witness:
  "createUser True ''a@x.io'' ''h2'' users_fixture = (Inl SQLITE_CONSTRAINT_UNIQUE, users_fixture) \<and>
   getUserByEmail ''a@x.io'' (snd (createUser False ''a@x.io'' ''h2'' users_fixture)) =
     Some (1, \<lparr>user_email = ''a@x.io'', user_password = ''h1''\<rparr>)"
proof -
  have "getUserByEmail ''a@x.io'' users_fixture = Some (1, \<lparr>user_email = ''a@x.io'', user_password = ''h1''\<rparr>)"
    by (simp add: users_fixture_def getUserByEmail_def select_first_def)
  then show ?thesis
    using createUser_duplicate_email [of "''a@x.io''" users_fixture _ "''h2''"] by blast
qed

end
