(* ===== verification/ImageLoader.thy ===== *)
theory ImageLoader
  imports Prelude
begin

text \<open>
  The custom loader that \<open>Post\<close> (\<open>src/7-next-optimization/components/posts.js\<close>)
  hands to Next's \<open>Image\<close>: it rewrites a Cloudinary URL by inserting a transformation
  after \<open>upload/\<close>. Next calls it with the \<open>src\<close>, a width it picks for each entry of
  the \<open>srcset\<close>, and the \<open>quality\<close> prop (\<open>undefined\<close> when absent). The template
  literal prints \<open>undefined\<close> for a missing part.
\<close>

record loader_config =
  src :: string
  width :: nat
  quality :: "nat option"

definition js_template_str :: "string option \<Rightarrow> string" where
  "js_template_str v = (case v of None \<Rightarrow> ''undefined'' | Some s \<Rightarrow> s)"

definition imageLoader :: "loader_config \<Rightarrow> string" where
  "imageLoader config =
     (let urlStart = js_at (js_split ''upload/'' (src config)) 0;
          urlEnd = js_at (js_split ''upload/'' (src config)) 1;
          transformations = ''w_200,q_'' @ js_num_str (quality config)
      in js_template_str urlStart @ ''upload/'' @ transformations @ ''/'' @ js_template_str urlEnd)"

text \<open>The configuration \<open>Post\<close> produces for a post image at a width Next chooses:
  \<open>quality={50}\<close>.\<close>

definition post_loader_config :: "string \<Rightarrow> nat \<Rightarrow> loader_config" where
  "post_loader_config img w = \<lparr>src = img, width = w, quality = Some 50\<rparr>"

section \<open>Lemmas\<close>

lemma all_less_list_all: "(\<forall>k < n. P k) \<longleftrightarrow> list_all P [0..<n]"
  by (auto simp: list_all_iff)

lemma nat_str_50: "nat_str 50 = ''50''"
  by code_simp

section \<open>Properties\<close>

text \<open>C31. For a URL with exactly one \<open>upload/\<close>, the loader inserts
  \<open>w_200,q_<quality>\<close> right after it and keeps the rest; the result does not depend on
  the width Next asks for, so every entry of the \<open>srcset\<close> names the same 200-pixel
  image (the "does not implement width" warning quoted in the source).\<close>

theorem imageLoader_unique_upload:
  assumes "\<forall>k < length (u @ ''upload/'' @ v). occurs_at ''upload/'' (u @ ''upload/'' @ v) k \<longleftrightarrow> k = length u"
  shows "imageLoader \<lparr>src = u @ ''upload/'' @ v, width = w, quality = q\<rparr> =
           u @ ''upload/w_200,q_'' @ js_num_str q @ ''/'' @ v"
proof -
  have "js_split ''upload/'' (u @ ''upload/'' @ v) = [u, v]"
    by (rule js_split_unique) (use assms in simp_all)
  then show ?thesis by (simp add: imageLoader_def js_at_def js_template_str_def)
qed

theorem imageLoader_unique_upload_witness:
  "imageLoader (post_loader_config ''https://c.io/upload/v1/a.png'' 640) =
     ''https://c.io/upload/w_200,q_50/v1/a.png''"
proof -
  have "\<forall>k < length (''https://c.io/'' @ ''upload/'' @ ''v1/a.png'').
          occurs_at ''upload/'' (''https://c.io/'' @ ''upload/'' @ ''v1/a.png'') k \<longleftrightarrow> k = length ''https://c.io/''"
    unfolding all_less_list_all by (simp add: occurs_at_def upt_rec)
  from imageLoader_unique_upload [OF this, of 640 "Some 50"] show ?thesis
    by (simp add: post_loader_config_def js_num_str_def nat_str_50)
qed

text \<open>C32. For a \<open>src\<close> without \<open>upload/\<close> (a local image), the loader does not fail
  but appends \<open>upload/w_200,q_<quality>/undefined\<close> to the URL: the part after the
  split does not exist and the template prints \<open>undefined\<close>.\<close>

theorem imageLoader_no_upload:
  assumes "\<forall>k < length s. \<not> occurs_at ''upload/'' s k"
  shows "imageLoader \<lparr>src = s, width = w, quality = q\<rparr> = s @ ''upload/w_200,q_'' @ js_num_str q @ ''/undefined''"
proof -
  have "js_split ''upload/'' s = [s]"
    using js_split_from_none [OF assms, of "[]"] by (simp add: js_split_def)
  then show ?thesis by (simp add: imageLoader_def js_at_def js_template_str_def)
qed

theorem imageLoader_no_upload_witness:
  "imageLoader (post_loader_config ''/images/a.png'' 256) = ''/images/a.pngupload/w_200,q_50/undefined''"
proof -
  have "\<forall>k < length ''/images/a.png''. \<not> occurs_at ''upload/'' ''/images/a.png'' k"
    unfolding all_less_list_all by (simp add: occurs_at_def upt_rec)
  from imageLoader_no_upload [OF this, of 256 "Some 50"] show ?thesis
    by (simp add: post_loader_config_def js_num_str_def nat_str_50)
qed

end
