(* ===== verification/Routing.thy ===== *)
theory Routing
  imports Prelude
begin

text \<open>
  The Next.js app router as the example apps use it, and the pages of the basic app
  (\<open>src/2-basic-with-js/app\<close>) that only render links.

  A page file \<open>app/a/[b]/page.jsx\<close> defines a route: a list of segments, static
  (\<open>a\<close>), dynamic (\<open>[b]\<close>, one path segment bound to \<open>params.b\<close>), catch-all
  (\<open>[...b]\<close>, one or more) or optional catch-all (\<open>[[...b]]\<close>, zero or more; with
  zero, \<open>params.b\<close> is \<open>undefined\<close>). Route groups \<open>(name)\<close> and parallel slots
  \<open>@name\<close> add no segment. A request path is split at \<open>/\<close> and its empty parts
  dropped; a route table lists the routes in the order the router prefers them (static
  before dynamic before catch-all). Percent-decoding of segments is not modelled: the
  paths the apps link to contain only letters, digits and \<open>-\<close>.

  A link's \<open>href\<close> is resolved against the current path as a browser does (RFC 3986):
  an absolute path stands; a relative one replaces the last segment of the current path.
\<close>

datatype segment = Static string | Dynamic string | CatchAll string | OptionalCatchAll string

type_synonym app_route = "segment list"

datatype param_value = PStr string | PList "string list"

type_synonym route_params = "(string \<times> param_value) list"

definition path_segments :: "string \<Rightarrow> string list" where
  "path_segments path = filter (\<lambda>s. s \<noteq> []) (js_split ''/'' path)"

fun match_route :: "app_route \<Rightarrow> string list \<Rightarrow> route_params option" where
  "match_route [] [] = Some []"
| "match_route [CatchAll n] xs = (if xs = [] then None else Some [(n, PList xs)])"
| "match_route [OptionalCatchAll n] xs = Some (if xs = [] then [] else [(n, PList xs)])"
| "match_route (Static s # r) (x # xs) = (if s = x then match_route r xs else None)"
| "match_route (Dynamic n # r) (x # xs) = map_option (\<lambda>ps. (n, PStr x) # ps) (match_route r xs)"
| "match_route _ _ = None"

definition find_page :: "(app_route \<times> 'p) list \<Rightarrow> string \<Rightarrow> ('p \<times> route_params) option" where
  "find_page routes path =
     (case find (\<lambda>(r, _). match_route r (path_segments path) \<noteq> None) routes of
        None \<Rightarrow> None
      | Some (r, p) \<Rightarrow> map_option (\<lambda>ps. (p, ps)) (match_route r (path_segments path)))"

text \<open>\<open>params.n\<close> for a dynamic and for a catch-all segment.\<close>

definition param_str :: "route_params \<Rightarrow> string \<Rightarrow> string option" where
  "param_str ps n = (case map_of ps n of Some (PStr s) \<Rightarrow> Some s | _ \<Rightarrow> None)"

definition param_list :: "route_params \<Rightarrow> string \<Rightarrow> string list option" where
  "param_list ps n = (case map_of ps n of Some (PList xs) \<Rightarrow> Some xs | _ \<Rightarrow> None)"

definition resolve_href :: "string \<Rightarrow> string \<Rightarrow> string" where
  "resolve_href base href =
     (if take 1 href = ''/'' then href else rev (dropWhile (\<lambda>c. c \<noteq> CHR ''/'') (rev base)) @ href)"

section \<open>The basic app\<close>

record link =
  link_href :: string
  link_label :: string

record page_markup =
  page_heading :: string
  page_text :: "string list"
  page_links :: "link list"

definition Home :: page_markup where
  "Home = \<lparr>page_heading = ''Welcome Home'', page_text = [],
     page_links = [\<lparr>link_href = ''/about'', link_label = ''About''\<rparr>,
                   \<lparr>link_href = ''/blogs'', link_label = ''Blogs''\<rparr>,
                   \<lparr>link_href = ''/services'', link_label = ''Services''\<rparr>]\<rparr>"

definition Blogs :: page_markup where
  "Blogs = \<lparr>page_heading = ''Blogs'', page_text = [],
     page_links = [\<lparr>link_href = ''/blogs/post-1'', link_label = ''post 1''\<rparr>,
                   \<lparr>link_href = ''/blogs/post-2'', link_label = ''post 2''\<rparr>,
                   \<lparr>link_href = ''/blogs/post-3'', link_label = ''post 3''\<rparr>]\<rparr>"

definition BlogPost :: "string \<Rightarrow> page_markup" where
  "BlogPost slug = \<lparr>page_heading = ''Blog Post'', page_text = [slug], page_links = []\<rparr>"

definition services :: page_markup where
  "services = \<lparr>page_heading = [], page_text = [''All services (Nested Routings - /services/web-dev)''],
     page_links = [\<lparr>link_href = ''services/web-dev'', link_label = ''web development''\<rparr>,
                   \<lparr>link_href = ''services/app-dev'', link_label = ''app development''\<rparr>,
                   \<lparr>link_href = ''services/wordpress'', link_label = ''wordpress''\<rparr>,
                   \<lparr>link_href = ''services/seo'', link_label = ''SEO''\<rparr>]\<rparr>"

datatype basic_page = HomeRoute | BlogsRoute | BlogPostRoute | ServicesRoute

text \<open>The page files of \<open>2-basic-with-js/app\<close>: \<open>page.jsx\<close>, \<open>blogs/page.jsx\<close>,
  \<open>blogs/[slug]/page.jsx\<close>, \<open>services/page.jsx\<close>.\<close>

definition basic_routes :: "(app_route \<times> basic_page) list" where
  "basic_routes =
     [([], HomeRoute), ([Static ''blogs''], BlogsRoute),
      ([Static ''blogs'', Dynamic ''slug''], BlogPostRoute), ([Static ''services''], ServicesRoute)]"

datatype response = Rendered page_markup | NotFound404

definition render_basic :: "basic_page \<Rightarrow> route_params \<Rightarrow> page_markup" where
  "render_basic p ps =
     (case p of
        HomeRoute \<Rightarrow> Home
      | BlogsRoute \<Rightarrow> Blogs
      | BlogPostRoute \<Rightarrow> BlogPost (case param_str ps ''slug'' of Some s \<Rightarrow> s | None \<Rightarrow> [])
      | ServicesRoute \<Rightarrow> services)"

definition serve_basic :: "string \<Rightarrow> response" where
  "serve_basic path =
     (case find_page basic_routes path of None \<Rightarrow> NotFound404 | Some (p, ps) \<Rightarrow> Rendered (render_basic p ps))"

section \<open>Lemmas\<close>

lemma path_segments_slash [simp]:
  "CHR ''/'' \<notin> set a \<Longrightarrow> path_segments (a @ CHR ''/'' # b) = (if a = [] then [] else [a]) @ path_segments b"
  by (simp add: path_segments_def js_split_single_cons)

lemma path_segments_plain [simp]:
  "CHR ''/'' \<notin> set a \<Longrightarrow> path_segments a = (if a = [] then [] else [a])"
  by (simp add: path_segments_def js_split_single_none)

lemma find_page_Cons:
  "find_page ((r, p) # routes) path =
     (case match_route r (path_segments path) of
        Some ps \<Rightarrow> Some (p, ps)
      | None \<Rightarrow> find_page routes path)"
  by (simp add: find_page_def split: option.splits)

lemma find_page_Nil [simp]: "find_page [] path = None"
  by (simp add: find_page_def)

lemma param_str_Cons [simp]:
  "param_str ((n, PStr s) # ps) n = Some s"
  by (simp add: param_str_def)

lemma param_list_Cons [simp]:
  "param_list ((n, PList xs) # ps) n = Some xs"
  by (simp add: param_list_def)

lemma param_list_Nil [simp]: "param_list [] n = None"
  by (simp add: param_list_def)

lemmas route_simps = find_page_Cons basic_routes_def

lemma path_segments_blogs: "s \<noteq> [] \<Longrightarrow> CHR ''/'' \<notin> set s \<Longrightarrow> path_segments (''/blogs/'' @ s) = [''blogs'', s]"
  by (simp add: path_segments_def js_split_def)

section \<open>Properties\<close>





end
