(* ===== verification/Navigation.thy ===== *)
theory Navigation
  imports Routing Archive NewsPages
begin

text \<open>
  The routing example (\<open>src/4-routing-and-page-rendering\<close>) as a whole: its route table,
  the news index page (\<open>news/page.js\<close>), the not-found page of an article
  (\<open>news/[id]/not-found.js\<close>), the archive layout (\<open>archive/layout.js\<close>), and the
  pages modelled in \<open>Archive\<close> and \<open>NewsPages\<close>, served for a request path.

  The image route is served two ways. A client-side navigation from the article page is
  intercepted by \<open>@modal/(.)image\<close> and shows the modal; a full load of the same URL
  renders \<open>image/page.js\<close>. The flag \<open>soft\<close> of \<open>serve_news\<close> selects the first.
  \<open>notFound()\<close> anywhere under \<open>news/[id]\<close> renders \<open>news/[id]/not-found.js\<close>.
  The \<open>@latest\<close> slot of the archive layout has no page among the sources and is left
  out.
\<close>

datatype news_app_page = NewsIndex | NewsDetail | NewsImage | ArchiveFilter

definition news_routes :: "(app_route \<times> news_app_page) list" where
  "news_routes =
     [([Static ''news''], NewsIndex),
      ([Static ''news'', Dynamic ''id''], NewsDetail),
      ([Static ''news'', Dynamic ''id'', Static ''image''], NewsImage),
      ([Static ''archive'', OptionalCatchAll ''filter''], ArchiveFilter)]"

record news_index =
  index_heading :: string
  index_news :: "news_item list"

definition NewsPage :: "news_db \<Rightarrow> news_index" where
  "NewsPage db = \<lparr>index_heading = ''News Page'', index_news = getAllNews db\<rparr>"

definition NewsNotFoundPage :: "string \<times> string" where
  "NewsNotFoundPage = (''Now Found!'', ''Unfortunately, we could not find requested article!'')"

record archive_layout =
  layout_heading :: string
  filter_slot :: archive_page

definition ArchiveLayout :: "archive_page \<Rightarrow> archive_layout" where
  "ArchiveLayout archive = \<lparr>layout_heading = ''News Archive'', filter_slot = archive\<rparr>"

datatype news_response =
    IndexView news_index
  | ArticleView article_view
  | NewsNotFound "string \<times> string"
  | FullscreenView string string
  | ModalView string string
  | ArchiveView archive_layout
  | NoRoute

definition serve_news :: "news_item list \<Rightarrow> news_db \<Rightarrow> bool \<Rightarrow> string \<Rightarrow> news_response" where
  "serve_news DUMMY_NEWS db soft path =
     (case find_page news_routes path of
        None \<Rightarrow> NoRoute
      | Some (NewsIndex, _) \<Rightarrow> IndexView (NewsPage db)
      | Some (NewsDetail, ps) \<Rightarrow>
          (case param_str ps ''id'' of
             None \<Rightarrow> NoRoute
           | Some i \<Rightarrow> (case NewsDetailPage db i of
                          DetailNotFound \<Rightarrow> NewsNotFound NewsNotFoundPage
                        | Article v \<Rightarrow> ArticleView v))
      | Some (NewsImage, ps) \<Rightarrow>
          (case param_str ps ''id'' of
             None \<Rightarrow> NoRoute
           | Some i \<Rightarrow>
               (case (if soft then InterceptedImagePage db i else ImagePage DUMMY_NEWS i) of
                  ImageNotFound \<Rightarrow> NewsNotFound NewsNotFoundPage
                | FullscreenImage s a \<Rightarrow> FullscreenView s a
                | ImageModal s a \<Rightarrow> ModalView s a))
      | Some (ArchiveFilter, ps) \<Rightarrow> ArchiveView (ArchiveLayout (FilteredNewsPage db (param_list ps ''filter''))))"

text \<open>A served archive page that renders (its header does not throw) and lists at least
  one article, and the links of a served archive header.\<close>

definition archive_page_ok :: "news_response \<Rightarrow> bool" where
  "archive_page_ok r =
     (case r of
        ArchiveView lay \<Rightarrow> \<not> isl (archive_header (filter_slot lay)) \<and> archive_news (filter_slot lay) \<noteq> NoNewsForPeriod
      | _ \<Rightarrow> False)"

definition header_links :: "news_response \<Rightarrow> (string \<times> string option) list" where
  "header_links r =
     (case r of ArchiveView lay \<Rightarrow> (case archive_header (filter_slot lay) of Inr ls \<Rightarrow> ls | Inl _ \<Rightarrow> []) | _ \<Rightarrow> [])"

section \<open>Lemmas\<close>

lemma is_digit_slash [simp]: "\<not> is_digit CHR ''/''"
  by (simp add: is_digit_def less_eq_char_def)

text \<open>The year and the month \<open>strftime\<close> returns are non-empty strings of digits, so a
  link built from them is one path segment.\<close>

lemma strftime_Y_segment: "strftime_Y d = Some y \<Longrightarrow> y \<noteq> [] \<and> CHR ''/'' \<notin> set y"
  by (drule strftime_Y_text) (auto simp: list_all_iff)

lemma strftime_m_segment: "strftime_m d = Some m \<Longrightarrow> m \<noteq> [] \<and> CHR ''/'' \<notin> set m"
  by (drule strftime_m_text) (auto simp: list_all_iff)

lemma path_segments_archive_year:
  "y \<noteq> [] \<Longrightarrow> CHR ''/'' \<notin> set y \<Longrightarrow> path_segments (''/archive/'' @ y) = [''archive'', y]"
  by (simp add: path_segments_def js_split_def)

lemma path_segments_archive_month:
  "y \<noteq> [] \<Longrightarrow> CHR ''/'' \<notin> set y \<Longrightarrow> m \<noteq> [] \<Longrightarrow> CHR ''/'' \<notin> set m \<Longrightarrow>
   path_segments (''/archive/'' @ y @ ''/'' @ m) = [''archive'', y, m]"
  by (simp add: path_segments_def js_split_def js_split_from_single_cons)

lemma path_segments_news:
  "i \<noteq> [] \<Longrightarrow> CHR ''/'' \<notin> set i \<Longrightarrow> path_segments (''/news/'' @ i) = [''news'', i]"
  by (simp add: path_segments_def js_split_def)

lemma path_segments_news_image:
  "i \<noteq> [] \<Longrightarrow> CHR ''/'' \<notin> set i \<Longrightarrow> path_segments (''/news/'' @ i @ ''/image'') = [''news'', i, ''image'']"
  by (simp add: path_segments_def js_split_def js_split_from_single_cons)

lemma serve_news_archive_year:
  assumes "y \<noteq> []" "CHR ''/'' \<notin> set y"
  shows "serve_news D db soft (''/archive/'' @ y) = ArchiveView (ArchiveLayout (FilteredNewsPage db (Some [y])))"
proof -
  have seg: "path_segments (''/archive/'' @ y) = [''archive'', y]"
    using assms by (rule path_segments_archive_year)
  show ?thesis
    unfolding serve_news_def news_routes_def find_page_Cons seg by simp
qed

lemma serve_news_archive_month:
  assumes "y \<noteq> []" "CHR ''/'' \<notin> set y" "m \<noteq> []" "CHR ''/'' \<notin> set m"
  shows "serve_news D db soft (''/archive/'' @ y @ ''/'' @ m) =
           ArchiveView (ArchiveLayout (FilteredNewsPage db (Some [y, m])))"
proof -
  have seg: "path_segments (''/archive/'' @ y @ ''/'' @ m) = [''archive'', y, m]"
    using assms by (rule path_segments_archive_month)
  show ?thesis
    unfolding serve_news_def news_routes_def find_page_Cons seg by simp
qed

lemma serve_news_detail:
  assumes "i \<noteq> []" "CHR ''/'' \<notin> set i"
  shows "serve_news D db soft (''/news/'' @ i) =
           (case NewsDetailPage db i of DetailNotFound \<Rightarrow> NewsNotFound NewsNotFoundPage | Article v \<Rightarrow> ArticleView v)"
proof -
  have seg: "path_segments (''/news/'' @ i) = [''news'', i]"
    using assms by (rule path_segments_news)
  show ?thesis
    unfolding serve_news_def news_routes_def find_page_Cons seg by simp
qed

lemma serve_news_image:
  assumes "i \<noteq> []" "CHR ''/'' \<notin> set i"
  shows "serve_news D db soft (''/news/'' @ i @ ''/image'') =
           (case (if soft then InterceptedImagePage db i else ImagePage D i) of
              ImageNotFound \<Rightarrow> NewsNotFound NewsNotFoundPage
            | FullscreenImage s a \<Rightarrow> FullscreenView s a | ImageModal s a \<Rightarrow> ModalView s a)"
proof -
  have seg: "path_segments (''/news/'' @ i @ ''/image'') = [''news'', i, ''image'']"
    using assms by (rule path_segments_news_image)
  show ?thesis
    unfolding serve_news_def news_routes_def find_page_Cons seg by simp
qed

lemma serve_news_archive_root:
  "serve_news D db soft ''/archive'' = ArchiveView (ArchiveLayout (FilteredNewsPage db None))"
  by (simp add: serve_news_def news_routes_def find_page_Cons path_segments_def js_split_def)

lemma valid_years_segment:
  assumes "list_all (\<lambda>n. valid_date (news_date n)) (getAllNews db)" and "l \<in> set (getAvailableNewsYears db)"
  shows "\<exists>y. l = Some y \<and> y \<noteq> [] \<and> CHR ''/'' \<notin> set y"
proof -
  from assms(2) obtain n where n: "n \<in> set (getAllNews db)" "strftime_Y (news_date n) = l"
    by (auto simp: mem_getAvailableNewsYears)
  with assms(1) have "valid_date (news_date n)" by (simp add: list_all_iff)
  with n obtain y where "l = Some y" "strftime_Y (news_date n) = Some y" by (auto simp: strftime_Y_def)
  then show ?thesis using strftime_Y_segment by blast
qed

lemma months_segment:
  assumes "l \<in> set (getAvailableNewsMonths db y)"
  shows "\<exists>m. l = Some m \<and> m \<noteq> [] \<and> CHR ''/'' \<notin> set m"
proof -
  from assms have "\<exists>n \<in> set (getAllNews db). strftime_Y (news_date n) = Some y \<and> strftime_m (news_date n) = l"
    by (simp add: mem_getAvailableNewsMonths)
  then obtain n :: news_item where "strftime_Y (news_date n) = Some y" "strftime_m (news_date n) = l" by blast
  then obtain m where "l = Some m" "strftime_m (news_date n) = Some m" by (auto dest: strftime_m_Some)
  then show ?thesis using strftime_m_segment by blast
qed

lemma archive_root_served:
  "header_links (serve_news D db soft ''/archive'') =
     map (\<lambda>l. (''/archive/'' @ js_null_str l, l)) (getAvailableNewsYears db)"
  by (simp add: serve_news_archive_root archive_page_ok_def header_links_def ArchiveLayout_def
      FilteredNewsPage_Nil FilterHeader_root)

lemma archive_year_served:
  assumes "Some y \<in> set (getAvailableNewsYears db)" "y \<noteq> []" "CHR ''/'' \<notin> set y"
  shows "archive_page_ok (serve_news D db soft (''/archive/'' @ y)) \<and>
         header_links (serve_news D db soft (''/archive/'' @ y)) =
           map (\<lambda>l. (''/archive/'' @ y @ ''/'' @ js_null_str l, l)) (getAvailableNewsMonths db y)"
  unfolding serve_news_archive_year [OF assms(2,3)] using assms
  by (simp add: archive_page_ok_def header_links_def ArchiveLayout_def
      FilteredNewsPage_year FilterHeader_year FilteredNews_year years_iff_news [symmetric])

lemma archive_month_served:
  assumes "Some y \<in> set (getAvailableNewsYears db)" "Some m \<in> set (getAvailableNewsMonths db y)"
    "y \<noteq> []" "CHR ''/'' \<notin> set y" "m \<noteq> []" "CHR ''/'' \<notin> set m"
  shows "archive_page_ok (serve_news D db soft (''/archive/'' @ y @ ''/'' @ m))"
proof -
  have "getNewsForYearAndMonth db y m \<noteq> []" using assms(2) by (simp add: months_iff_news)
  then show ?thesis
    unfolding serve_news_archive_month [OF assms(3-6)] using assms
    by (simp add: archive_page_ok_def ArchiveLayout_def
        FilteredNewsPage_month FilterHeader_month FilteredNews_month)
qed

section \<open>Properties\<close>

text \<open>C33. Navigating the archive never dead-ends when the stored dates are
  \<open>YYYY-MM-DD\<close>: every year link of \<open>/archive\<close>, followed through the router, opens a
  page that renders and lists articles, and so does every month link of that page.\<close>

theorem archive_links_navigate:
  assumes dates: "list_all (\<lambda>n. valid_date (news_date n)) (getAllNews db)"
  shows "list_all (\<lambda>(href, _). archive_page_ok (serve_news D db soft href) \<and>
            list_all (\<lambda>(href', _). archive_page_ok (serve_news D db soft href'))
                     (header_links (serve_news D db soft href)))
           (header_links (serve_news D db soft ''/archive''))"
proof -
  have "\<forall>l \<in> set (getAvailableNewsYears db).
          archive_page_ok (serve_news D db soft (''/archive/'' @ js_null_str l)) \<and>
          (\<forall>x \<in> set (header_links (serve_news D db soft (''/archive/'' @ js_null_str l))).
             case x of (href', _) \<Rightarrow> archive_page_ok (serve_news D db soft href'))"
  proof
  fix l assume l: "l \<in> set (getAvailableNewsYears db)"
  with dates obtain y where y: "l = Some y" "y \<noteq> []" "CHR ''/'' \<notin> set y"
    using valid_years_segment by blast
  with l have yl: "Some y \<in> set (getAvailableNewsYears db)" by simp
  have months: "\<forall>l' \<in> set (getAvailableNewsMonths db y).
      archive_page_ok (serve_news D db soft (''/archive/'' @ y @ ''/'' @ js_null_str l'))"
  proof
    fix l' assume l': "l' \<in> set (getAvailableNewsMonths db y)"
    then obtain m where m: "l' = Some m" "m \<noteq> []" "CHR ''/'' \<notin> set m"
      using months_segment by blast
    with l' show "archive_page_ok (serve_news D db soft (''/archive/'' @ y @ ''/'' @ js_null_str l'))"
      using archive_month_served [OF yl _ y(2,3)] by (simp add: js_null_str_def)
  qed
  show "archive_page_ok (serve_news D db soft (''/archive/'' @ js_null_str l)) \<and>
        (\<forall>x \<in> set (header_links (serve_news D db soft (''/archive/'' @ js_null_str l))).
           case x of (href', _) \<Rightarrow> archive_page_ok (serve_news D db soft href'))"
    using archive_year_served [OF yl y(2,3)] months y(1) by (simp add: js_null_str_def)
  qed
  then show ?thesis by (simp add: archive_root_served list_all_iff)
qed

theorem archive_links_navigate_witness:
  "list_all (\<lambda>(href, _). archive_page_ok (serve_news [] news_fixture False href) \<and>
      list_all (\<lambda>(href', _). archive_page_ok (serve_news [] news_fixture False href'))
               (header_links (serve_news [] news_fixture False href)))
     (header_links (serve_news [] news_fixture False ''/archive''))"
proof -
  have "list_all (\<lambda>n. valid_date (news_date n)) (getAllNews news_fixture)"
    by (simp add: news_eval)
  then show ?thesis by (rule archive_links_navigate)
qed



end
