(* ===== verification/Feed.thy ===== *)
theory Feed
  imports Optimistic Routing
begin

text \<open>
  The feed of the optimization example: \<open>app/feed/page.js\<close> (\<open>generateMetadata\<close>
  and \<open>FeedPage\<close>) and the site header (\<open>components/header.js\<close>). Both functions
  of the page await \<open>getPosts()\<close> from \<open>lib/posts.js\<close>, which is not among the
  sources: its result is the parameter \<open>posts\<close>. On the first render the like
  coordinator of \<open>Posts\<close> starts from these posts with nothing in flight. Only the feed
  route has a page among the sources; the header's other targets (\<open>/\<close>,
  \<open>/new-post\<close>) have none.
\<close>

record feed_metadata =
  meta_title :: string
  meta_description :: string

definition generateMetadata :: "post list \<Rightarrow> feed_metadata" where
  "generateMetadata posts =
     \<lparr>meta_title = ''Browse all our '' @ nat_str (length posts) @ '' posts'',
      meta_description = ''Browse and share amazing posts from all users.''\<rparr>"

record feed_page =
  feed_heading :: string
  feed_posts :: posts_view

definition FeedPage :: "post list \<Rightarrow> feed_page" where
  "FeedPage posts = \<lparr>feed_heading = ''All posts by all users'', feed_posts = Posts \<lparr>base = posts, inflight = []\<rparr>\<rparr>"

definition Header :: "link list" where
  "Header =
     [\<lparr>link_href = ''/'', link_label = ''Mobile phone with posts feed on it''\<rparr>,
      \<lparr>link_href = ''/feed'', link_label = ''Feed''\<rparr>,
      \<lparr>link_href = ''/new-post'', link_label = ''New Post''\<rparr>]"

datatype optimization_page = FeedRoute

definition optimization_routes :: "(app_route \<times> optimization_page) list" where
  "optimization_routes = [([Static ''feed''], FeedRoute)]"

datatype feed_response = FeedView feed_metadata feed_page | NoFeedRoute

definition serve_optimization :: "post list \<Rightarrow> string \<Rightarrow> feed_response" where
  "serve_optimization posts path =
     (case find_page optimization_routes path of
        None \<Rightarrow> NoFeedRoute
      | Some (FeedRoute, _) \<Rightarrow> FeedView (generateMetadata posts) (FeedPage posts))"

section \<open>Lemmas\<close>

lemma Posts_initial: "Posts \<lparr>base = posts, inflight = []\<rparr> = (if posts = [] then NoPostsYet else PostList posts)"
  by (simp add: Posts_def optimisticPosts_def)

lemma serve_optimization_feed:
  "serve_optimization posts ''/feed'' = FeedView (generateMetadata posts) (FeedPage posts)"
  by (simp add: serve_optimization_def optimization_routes_def find_page_Cons path_segments_def js_split_def)

section \<open>Properties\<close>


end
