(* ===== verification/MessageForm.thy ===== *)
theory MessageForm
  imports Messages
begin

text \<open>
  The form of \<open>src/6-caching/app/messages/new/page.js\<close> (\<open>NewMessagePage\<close>) in front
  of the server action \<open>createMessage\<close>. The textarea \<open>message\<close> is \<open>required\<close>:
  the browser refuses to submit it empty, and otherwise posts its text, which
  \<open>formData.get('message')\<close> returns. A server action is also an HTTP endpoint that any
  client can post to. A request without the field gives \<open>null\<close>, and \<open>createMessage\<close>
  passes it to \<open>addMessage\<close> unchecked; the column \<open>text\<close> accepts \<open>NULL\<close>.
\<close>

datatype form_outcome = SubmitBlocked | ActionRan "store_error + action_result \<times> messages_db"

definition NewMessagePage_submit :: "string \<Rightarrow> messages_db \<Rightarrow> form_outcome" where
  "NewMessagePage_submit textarea db =
     (if textarea = [] then SubmitBlocked else ActionRan (createMessage (Some textarea) db))"

section \<open>Properties\<close>

text \<open>C35. The form never stores an empty or missing message: an empty textarea is not
  submitted, and a filled one stores exactly its text as the newest row. The action itself
  does no such check: a request without the field stores a row whose text is \<open>NULL\<close>,
  which \<open>/messages\<close> then lists.\<close>

theorem message_form_validation:
  assumes "db_online db"
  shows "NewMessagePage_submit [] db = SubmitBlocked \<and>
         (t \<noteq> [] \<longrightarrow> NewMessagePage_submit t db =
            ActionRan (Inr (Redirect messages_path,
              db\<lparr>messages_tbl := messages_tbl db @ [(new_rowid (messages_tbl db), Some t)]\<rparr>))) \<and>
         createMessage None db =
           Inr (Redirect messages_path, db\<lparr>messages_tbl := messages_tbl db @ [(new_rowid (messages_tbl db), None)]\<rparr>) \<and>
         fetch_messages () (db\<lparr>messages_tbl := messages_tbl db @ [(new_rowid (messages_tbl db), None)]\<rparr>) =
           Inr (map (\<lambda>(i, t). \<lparr>msg_id = i, msg_text = t\<rparr>) (messages_tbl db) @
                [\<lparr>msg_id = new_rowid (messages_tbl db), msg_text = None\<rparr>])"
  using assms
  by (simp add: NewMessagePage_submit_def createMessage_def addMessage_def fetch_messages_def select_all_def)

theorem message_form_validation_witness:
  "NewMessagePage_submit [] scenario1_db = SubmitBlocked \<and>
   createMessage None scenario1_db =
     Inr (Redirect messages_path,
          scenario1_db\<lparr>messages_tbl := messages_tbl scenario1_db @ [(4, None)]\<rparr>)"
proof -
  have h: "db_online scenario1_db" by (simp add: scenario1_db_def)
  have r: "new_rowid (messages_tbl scenario1_db) = 4" by (simp add: scenario1_db_def new_rowid_def)
  show ?thesis using message_form_validation [OF h, of "''x''"] r by simp
qed

end
