(* ===== verification/PostView.thy ===== *)
theory PostView
  imports Optimistic ImageLoader
begin

text \<open>
  The markup of the posts feed (\<open>src/7-next-optimization/components/posts.js\<close>):
  \<open>Post\<close> (lines 36-76) renders one post as an article card, and \<open>Posts\<close>
  (lines 99-117) renders the list \<open>useOptimistic\<close> returns, one list item per post
  keyed by its id, or a notice when that list is empty. The card's image goes through
  \<open>imageLoader\<close> (theory \<open>ImageLoader\<close>); Next's \<open>Image\<close> calls the loader once
  per width of its \<open>srcset\<close> and uses the last for \<open>src\<close>. Those widths come from
  Next's configuration, not from the sources, and are the parameter \<open>ws\<close>.
  \<open>formatDate\<close> comes from \<open>lib/format.js\<close>, which is not among the sources, and is
  the parameter \<open>formatDate\<close>. The like icon (\<open>like-icon.js\<close>) is not among the
  sources either; the card records the form around it: the post id bound into
  \<open>togglePostLikeStatus\<close> and the class \<open>liked\<close> or the empty class. The card
  does not show the like count.
\<close>

text \<open>The \<open>Image\<close> element of \<open>Post\<close> (lines 40-47).\<close>

record image_markup =
  img_src :: string
  img_srcset :: "(string \<times> nat) list"
  img_alt :: string
  img_width :: nat
  img_height :: nat

definition post_image_markup :: "string \<Rightarrow> string \<Rightarrow> nat list \<Rightarrow> image_markup" where
  "post_image_markup url alt ws =
     \<lparr>img_src = imageLoader (post_loader_config url (last ws)),
      img_srcset = map (\<lambda>w. (imageLoader (post_loader_config url w), w)) ws,
      img_alt = alt, img_width = 200, img_height = 120\<rparr>"

record post_card =
  card_image :: image_markup
  card_title :: string
  card_byline :: string
  card_datetime :: string
  card_date_text :: string
  card_form_action :: nat
  card_form_class :: string
  card_content :: string

text \<open>\<open>Post({ post })\<close>: the \<open>action\<close> prop \<open>Posts\<close> passes is not used.\<close>

definition Post :: "(string \<Rightarrow> string) \<Rightarrow> nat list \<Rightarrow> post \<Rightarrow> post_card" where
  "Post formatDate ws post =
     \<lparr>card_image = post_image_markup (post_image post) (title post) ws,
      card_title = title post,
      card_byline = ''Shared by '' @ userFirstName post @ '' on '',
      card_datetime = createdAt post,
      card_date_text = formatDate (createdAt post),
      card_form_action = post_id post,
      card_form_class = (if isLiked post then ''liked'' else ''''),
      card_content = content post\<rparr>"

datatype posts_markup = EmptyNotice string | PostsUl "(nat \<times> post_card) list"

text \<open>The body of \<open>Posts\<close> after \<open>useOptimistic\<close>: the empty notice (lines 99-101)
  or the list (lines 108-116).\<close>

definition Posts_markup :: "(string \<Rightarrow> string) \<Rightarrow> nat list \<Rightarrow> coordinator \<Rightarrow> posts_markup" where
  "Posts_markup formatDate ws s =
     (let optimisticPosts = optimisticPosts s
      in if optimisticPosts = [] then EmptyNotice ''There are no posts yet. Maybe start sharing some?''
         else PostsUl (map (\<lambda>post. (post_id post, Post formatDate ws post)) optimisticPosts))"

text \<open>The cards of a rendering, with their keys.\<close>

fun card_list :: "posts_markup \<Rightarrow> (nat \<times> post_card) list" where
  "card_list (EmptyNotice _) = []"
| "card_list (PostsUl cs) = cs"

text \<open>Spec Scenario 2: the feed shows one post the user has not liked.\<close>

definition feed_fixture :: coordinator where
  "feed_fixture = \<lparr>base = [scenario_post], inflight = []\<rparr>"

section \<open>Lemmas\<close>

lemma card_list_Posts_markup [simp]:
  "card_list (Posts_markup fd ws s) = map (\<lambda>p. (post_id p, Post fd ws p)) (optimisticPosts s)"
  by (simp add: Posts_markup_def Let_def)

lemma map_post_id_fold_reducer:
  "map post_id (fold (\<lambda>(pid, opt) ps. if opt then optimistic_reducer ps pid else ps) q ps) = map post_id ps"
  by (induction q arbitrary: ps) auto

lemma map_post_id_optimisticPosts: "map post_id (optimisticPosts s) = map post_id (base s)"
  by (simp add: optimisticPosts_def map_post_id_fold_reducer)

lemma Post_toggle:
  "Post fd ws (p\<lparr>likes := l, isLiked := \<not> isLiked p\<rparr>) =
     (Post fd ws p)\<lparr>card_form_class := (if card_form_class (Post fd ws p) = ''liked'' then [] else ''liked'')\<rparr>"
  by (simp add: Post_def)

section \<open>Properties\<close>

text \<open>C9. What the user sees of a like: the list items are keyed by the ids of the
  authoritative list, in its order, in every state; \<open>updatePost\<close> changes, at once,
  exactly one card, the first with that id, and on it only the like form's class, which
  flips between \<open>liked\<close> and empty; submitting a card's like form as the source wires
  it leaves the rendered feed as it was until the server answers.\<close>

theorem like_feedback_rendered:
  assumes "i < length (optimisticPosts s)" "post_id (optimisticPosts s ! i) = pid"
    "\<forall>j < i. post_id (optimisticPosts s ! j) \<noteq> pid"
  shows "map fst (card_list (Posts_markup fd ws s)) = map post_id (base s) \<and>
         card_list (Posts_markup fd ws (updatePost pid s)) =
           (let cs = card_list (Posts_markup fd ws s)
            in cs[i := (pid, (snd (cs ! i))\<lparr>card_form_class :=
                         (if card_form_class (snd (cs ! i)) = ''liked'' then [] else ''liked'')\<rparr>)]) \<and>
         Posts_markup fd ws (submit_like_form p s) = Posts_markup fd ws s"
proof (intro conjI)
  show "map fst (card_list (Posts_markup fd ws s)) = map post_id (base s)"
    by (simp add: comp_def flip: map_post_id_optimisticPosts)
  show "Posts_markup fd ws (submit_like_form p s) = Posts_markup fd ws s"
    by (simp add: Posts_markup_def)
  show "card_list (Posts_markup fd ws (updatePost pid s)) =
           (let cs = card_list (Posts_markup fd ws s)
            in cs[i := (pid, (snd (cs ! i))\<lparr>card_form_class :=
                         (if card_form_class (snd (cs ! i)) = ''liked'' then [] else ''liked'')\<rparr>)])"
    using assms by (simp add: optimistic_reducer_found map_update Post_toggle)
qed

theorem like_feedback_rendered_witness:
  "card_form_class (snd (card_list (Posts_markup (\<lambda>d. d) [256, 640] (updatePost 1 feed_fixture)) ! 0)) = ''liked'' \<and>
   card_form_class (snd (card_list (Posts_markup (\<lambda>d. d) [256, 640] feed_fixture) ! 0)) = []"
proof -
  have o: "optimisticPosts feed_fixture = [scenario_post]"
    by (simp add: feed_fixture_def optimisticPosts_def)
  have h1: "0 < length (optimisticPosts feed_fixture)" and h2: "post_id (optimisticPosts feed_fixture ! 0) = 1"
    and h3: "\<forall>j < 0. post_id (optimisticPosts feed_fixture ! j) \<noteq> 1"
    by (simp_all add: o scenario_post_def)
  have c: "card_form_class (Post (\<lambda>d. d) [256, 640] scenario_post) = []"
    by (simp add: scenario_post_def Post_def)
  show ?thesis
    using like_feedback_rendered [OF h1 h2 h3, of "\<lambda>d. d" "[256, 640]" scenario_post] c
    by (simp add: Let_def o)
qed

end
