(* ===== verification/Spec2Isabelle.thy ===== *)
theory Spec2Isabelle
  imports Prelude Store ReadCache Messages Optimistic News Archive NewsPages Meals ImagePicker Users ImageLoader
    Routing Navigation Feed MessageForm PostView
begin

text \<open>
  \<^bold>\<open>A verification development for the Next.js course repository.\<close>

  The repository is a set of tutorial applications. Its one part with a real contract is
  the read cache, its invalidation and the optimistic mutation of the posts feed (spec,
  section 1); the rest is data access over SQLite tables and pages that render what it
  returns. The development models the code under \<open>src/\<close> as HOL functions and
  proves what the spec promises of it.

  \<^bold>\<open>Parts and how they interact.\<close> Pages call the data-access functions of the
  \<open>lib/\<close> files; those read and write SQLite tables through better-sqlite3 (the Store
  Accessor). Reads go through a cache: React's \<open>cache\<close> memoizes \<open>getMessages\<close>
  for one render cycle, and Next.js keeps rendered routes until a mutation revalidates
  them. The posts feed shows the user's like at once through \<open>useOptimistic\<close> and
  reconciles with the server action's result.

  \<^bold>\<open>Theories.\<close>
  \<^item> \<open>Prelude\<close>: the JavaScript built-ins the sources call (\<open>arr[i]\<close>,
    \<open>findIndex\<close>, \<open>split\<close>, \<open>pop\<close>, truthiness, number printing) with their
    lemmas, and generic list lemmas; the collection \<open>js_simps\<close>.
  \<^item> \<open>Store\<close>: a table as its rows in rowid order, \<open>insert_row\<close> (rowid one more
    than the largest), \<open>select_all\<close>, \<open>select_where\<close>, \<open>select_first\<close>
    (\<open>.get\<close>), and the well-formedness of rowids. Modelled from the spec's Store
    Accessor, since better-sqlite3 is a library.
  \<^item> \<open>ReadCache\<close>: the Read Cache and Invalidation Controller of spec sections
    4.1-4.2: entries tagged with scopes, a count of store queries, \<open>cache_get\<close>,
    \<open>invalidate\<close>, \<open>revalidate_path\<close> (exact and subtree scope),
    \<open>on_mutation_success\<close>, and coherence with the store. Its lemmas show that a
    coherent cache is transparent (a read returns what the loader returns), that reads
    are memoized and single-flight (one query per distinct key), that failures are not
    cached, that invalidation forces a reload, is idempotent and a no-op on unknown
    tags, that a mutation followed by invalidation of the affected tags keeps the cache
    coherent, and that subtree revalidation removes exactly the entries below the scope.
  \<^item> \<open>Messages\<close>: \<open>lib/messages.js\<close> (\<open>initDb\<close>, \<open>addMessage\<close>,
    \<open>getMessages\<close> through the per-cycle cache), the layout and page of
    \<open>/messages\<close> rendered in one cycle, the route cache serving \<open>/messages\<close>, and the
    server action \<open>createMessage\<close> of \<open>messages/new/page.js\<close>.
  \<^item> \<open>Optimistic\<close>: the reducer of \<open>components/posts.js\<close>, \<open>updatePost\<close>,
    the like form of \<open>Post\<close> as wired, and the coordinator state of spec section 4.3:
    the authoritative list and the queue of server actions in flight (Next.js runs
    them one at a time), the visible list, settlement on success or failure, an
    inductive step relation and its reachable states.
  \<^item> \<open>PostView\<close>: the markup of \<open>Post\<close> (image through the loader, title,
    byline, time, like form and its class, content) and of \<open>Posts\<close> (the empty notice
    or the list keyed by post id), rendered from the visible list. \<open>formatDate\<close> and
    the widths Next's \<open>Image\<close> asks the loader for are parameters.
  \<^item> \<open>News\<close>: \<open>lib/news.js\<close> of the routing example: the seven queries over the
    \<open>news\<close> table with the SQL functions they use (\<open>strftime\<close> on dates,
    \<open>ORDER BY date DESC\<close>, \<open>DISTINCT\<close>), and the types of the values the
    year and month queries return.
  \<^item> \<open>Archive\<close>: the archive filter page (\<open>FilterHeader\<close>,
    \<open>FilteredNews\<close>, \<open>FilteredNewsPage\<close> on the optional catch-all segment).
  \<^item> \<open>NewsPages\<close>: the article page, the full-page image route and the intercepted
    image modal of \<open>news/[id]\<close>.
  \<^item> \<open>Meals\<close>: \<open>lib/meals.js\<close> (\<open>getAllMeals\<close>, \<open>getMeal\<close>,
    \<open>saveMeal\<close> with its file-system effect) and one render of \<open>/meals\<close>.
  \<^item> \<open>ImagePicker\<close>: the meal form's image picker as a state machine over clicks,
    file selections and \<open>FileReader\<close> loads, which the browser may deliver in any
    order.
  \<^item> \<open>Users\<close>: \<open>createUser\<close> and \<open>getUserByEmail\<close> of the authentication
    example, with the schema's uniqueness of \<open>email\<close> as a parameter.
  \<^item> \<open>ImageLoader\<close>: the Cloudinary loader that \<open>Post\<close> passes to \<open>Image\<close>.
  \<^item> \<open>Routing\<close>: the Next.js app router (static, dynamic and catch-all segments;
    route tables in preference order) and the browser's resolution of relative links,
    modelled from the framework's rules. It also holds the pages of the basic app
    (\<open>2-basic-with-js\<close>), which render links, and that app's route table.
  \<^item> \<open>Navigation\<close>: the routing example served as a whole (\<open>serve_news\<close>). It
    covers the news index, the article page, the image route (the intercepted modal on
    client navigation, the full page on a direct load), the not-found page and the archive
    under its layout.
  \<^item> \<open>Feed\<close>: the feed page with its metadata, and the header of the optimization
    example. The posts are a parameter, because \<open>lib/posts.js\<close> is not among the
    sources.
  \<^item> \<open>MessageForm\<close>: the new-message form in front of the \<open>createMessage\<close> action.

  \<^bold>\<open>What the claims show.\<close> The like reducer toggles flag and count atomically
  and is an involution. The success and failure paths of an optimistic like behave as spec
  Scenarios 2 and 3. Every reachable coordinator state shows consistent like counts, and
  all pending actions settle. One render of \<open>/messages\<close> queries the store once, a
  cached read is stable within a cycle, and failures are retried. The news queries return
  exactly the articles of a period in date order, and the year and month lists agree with
  the pages they link to. Their values have the types the pages expect: a year is
  \<open>null\<close> or four digits, and \<open>null\<close> only for an unreadable date; a month is
  always two digits from \<open>01\<close> to \<open>12\<close>. The archive header links only to valid pages when the dates are
  well formed. The picker only ever shows a file the user selected, and a completed
  selection shows its file, and its pending reads always drain. Sign-up followed by
  lookup returns the new user, and the loader rewrites a Cloudinary URL as intended.
  Across components:
  \<^item> The rendered feed follows the optimistic list: \<open>updatePost\<close> flips the like
    class of exactly the card of that post at once, the list keys stay the post ids, and
    the like form as wired changes nothing on screen.
  \<^item> Following the archive's links through the router, two levels deep, always reaches
    a valid non-empty page.
  \<^item> An article's image link reaches the image route of the same article.
  \<^item> A blog slug in the URL is the slug the page shows.
  \<^item> The feed title's count reads back as the number of posts.
  \<^item> The basic app's route table is unambiguous.

  \<^bold>\<open>Findings proved.\<close>
  \<^item> The like form never applies the optimistic update. The card shows no like count,
    so the class is the only visible feedback of a like.
  \<^item> \<open>createMessage\<close> as written leaves a cached \<open>/messages\<close> stale.
    The mutation followed by the revalidation the spec asks for gives a fresh page
    (Scenario 1).
  \<^item> \<open>saveMeal\<close> always throws at \<open>stream.write\<close> and never stores a meal.
  \<^item> A late \<open>FileReader\<close> overwrites a newer selection in the picker.
  \<^item> The full-page image route disagrees with the modal for articles that are only in
    the table.
  \<^item> An unreadable date yields an \<open>/archive/null\<close> link to a page that throws.
  \<^item> The image loader ignores the requested width, and produces
    \<open>.../undefined\<close> for URLs without \<open>upload/\<close>.
  \<^item> A duplicate sign-up either throws or stores a user that lookup never returns.
  \<^item> Links of the basic app lead to paths (\<open>/about\<close>, \<open>/services/<name>\<close>) that
    no page among the sources serves.
  \<^item> The message action stores \<open>NULL\<close> for a request without the field, since only
    the browser's \<open>required\<close> guards it.

  \<^bold>\<open>Choices.\<close>
  \<^item> JavaScript numbers that count likes are \<open>int\<close>, since no overflow occurs in
    range; rowids are \<open>nat\<close>.
  \<^item> No loop of the modelled code can fail to terminate, so no fuel is needed. The only
    non-structural recursions are \<open>js_split_from\<close> (which has a measure) and
    \<open>nat_str\<close>.
  \<^item> Asynchronous delays (\<open>setTimeout\<close>) change no value and are not modelled.
  \<^item> Browser event interleavings are explicit event lists.

  \<^bold>\<open>Not modelled.\<close> Every file under \<open>src/\<close> now has a model. Left out are
  code the sources only import:
  \<^item> \<open>lib/posts.js\<close> and \<open>actions/posts.js\<close> of the feed;
  \<^item> \<open>lib/db.js\<close> of the authentication example;
  \<^item> \<open>dummy-news.js\<close>;
  \<^item> the \<open>NewsList\<close>, \<open>MealsGrid\<close> and \<open>LikeButton\<close> components;
  \<^item> the \<open>@latest\<close> archive slot.
  These enter only as parameters. The libraries (better-sqlite3, slugify, xss, React,
  Next.js) are modelled only through the behaviour the code relies on. Markup is modelled
  as the text and links it shows, without styling.
\<close>

end
